theory Spec2Isabelle
  imports Complex_Main
begin

section \<open>Slugs (utils/response.ts, generateSlug)\<close>

text \<open>
  A name is a list of characters. The model covers the code units 0 to 255 (ASCII and
  Latin-1): \<open>\w\<close> is the ASCII class \<open>[A-Za-z0-9_]\<close>, \<open>\s\<close> is the white space of
  that range (tab, line feed, vertical tab, form feed, carriage return, space, no-break
  space), and \<open>toLowerCase\<close> maps \<open>A-Z\<close> and the upper-case letters of Latin-1.
\<close>

definition is_upper :: "char \<Rightarrow> bool" where
  "is_upper c = (65 \<le> (of_char c :: nat) \<and> (of_char c :: nat) \<le> 90)"

definition is_lower :: "char \<Rightarrow> bool" where
  "is_lower c = (97 \<le> (of_char c :: nat) \<and> (of_char c :: nat) \<le> 122)"

definition is_digit :: "char \<Rightarrow> bool" where
  "is_digit c = (48 \<le> (of_char c :: nat) \<and> (of_char c :: nat) \<le> 57)"

definition is_latin1_upper :: "char \<Rightarrow> bool" where
  "is_latin1_upper c =
     (192 \<le> (of_char c :: nat) \<and> (of_char c :: nat) \<le> 222 \<and> (of_char c :: nat) \<noteq> 215)"

definition is_word :: "char \<Rightarrow> bool" where
  "is_word c = (is_upper c \<or> is_lower c \<or> is_digit c \<or> c = CHR ''_'')"

definition is_space :: "char \<Rightarrow> bool" where
  "is_space c = ((of_char c :: nat) \<in> {9, 10, 11, 12, 13, 32, 160})"

definition hyphen :: char where
  "hyphen = CHR ''-''"

definition toLowerCase_char :: "char \<Rightarrow> char" where
  "toLowerCase_char c =
     (if is_upper c \<or> is_latin1_upper c then char_of ((of_char c :: nat) + 32) else c)"

definition toLowerCase :: "string \<Rightarrow> string" where
  "toLowerCase text = map toLowerCase_char text"

text \<open>\<open>trim()\<close>: white space is dropped at both ends.\<close>

definition trim :: "string \<Rightarrow> string" where
  "trim text = rev (dropWhile is_space (rev (dropWhile is_space text)))"

text \<open>\<open>.replace(/[^\w\s-]/g, "")\<close>: every character outside the three classes is deleted.\<close>

definition is_kept :: "char \<Rightarrow> bool" where
  "is_kept c = (is_word c \<or> is_space c \<or> c = hyphen)"

definition remove_special :: "string \<Rightarrow> string" where
  "remove_special text = filter is_kept text"

text \<open>
  \<open>.replace(/[\s_-]+/g, "-")\<close>: scanning from the left, a greedy match takes the whole
  run of separators and is replaced by one hyphen.
\<close>

definition is_sep :: "char \<Rightarrow> bool" where
  "is_sep c = (is_space c \<or> c = CHR ''_'' \<or> c = hyphen)"

function replace_runs :: "string \<Rightarrow> string" where
  "replace_runs [] = []"
| "replace_runs (c # cs) =
     (if is_sep c then hyphen # replace_runs (dropWhile is_sep cs)
      else c # replace_runs cs)"
  by pat_completeness auto
termination
  by (relation "measure length") (auto simp: length_dropWhile_le less_Suc_eq_le)

text \<open>\<open>.replace(/^-+|-+$/g, "")\<close>: the hyphens at the start and at the end are deleted.\<close>

definition strip_hyphens :: "string \<Rightarrow> string" where
  "strip_hyphens text =
     rev (dropWhile (\<lambda>c. c = hyphen) (rev (dropWhile (\<lambda>c. c = hyphen) text)))"

definition generateSlug :: "string \<Rightarrow> string" where
  "generateSlug text = strip_hyphens (replace_runs (remove_special (trim (toLowerCase text))))"

text \<open>
  The words of a string are its maximal runs of characters that are no separators; a
  slug is described as its words joined by single hyphens.
\<close>

function slug_words :: "string \<Rightarrow> string list" where
  "slug_words [] = []"
| "slug_words (c # cs) =
     (if is_sep c then slug_words (dropWhile is_sep cs)
      else (c # takeWhile (\<lambda>x. \<not> is_sep x) cs) # slug_words (dropWhile (\<lambda>x. \<not> is_sep x) cs))"
  by pat_completeness auto
termination
  by (relation "measure length") (auto simp: length_dropWhile_le less_Suc_eq_le)

fun join_hyphen :: "string list \<Rightarrow> string" where
  "join_hyphen [] = []"
| "join_hyphen [w] = w"
| "join_hyphen (w # v # ws) = w @ hyphen # join_hyphen (v # ws)"

text \<open>The hyphen a string gets in front when it starts with a separator.\<close>

definition lead :: "string \<Rightarrow> string" where
  "lead xs = (case xs of [] \<Rightarrow> [] | c # cs \<Rightarrow> if is_sep c then [hyphen] else [])"

section \<open>Decor documents (models/Decor.ts)\<close>

type_synonym oid = string

datatype DecorStatus = ACTIVE | INACTIVE | OUT_OF_STOCK | DISCONTINUED

text \<open>
  The stored fields of a decor. Prices are the values after the schema's setter has
  rounded them; stock is a count, the schema refusing negative numbers. The schema
  option \<open>timestamps\<close> adds the two times, readings of a clock; a document that was
  never saved has none. The optional dimensions are left out: no operation below reads or
  assigns them.
\<close>

record decor =
  name :: string
  slug :: string
  description :: string
  category :: oid
  price :: rat
  originalPrice :: "rat option"
  stock :: nat
  status :: DecorStatus
  featured :: bool
  images :: "string list"
  tags :: "string list"
  materials :: "string list"
  careInstructions :: "string option"
  rating_average :: rat
  rating_count :: nat
  views :: nat
  salesCount :: nat
  createdBy :: oid
  createdAt :: "int option"
  updatedAt :: "int option"

text \<open>
  A document in memory: its identifier, its fields, the paths assigned a new value since
  it was loaded or constructed, and whether it has never been written. The paths are
  those the operations below assign or ask about.
\<close>

datatype path =
  P_name | P_slug | P_category | P_price | P_originalPrice | P_stock | P_status
  | P_createdAt | P_updatedAt

record decor_doc =
  doc_id :: oid
  doc :: decor
  modified :: "path set"
  isNew :: bool

definition isModified :: "decor_doc \<Rightarrow> path \<Rightarrow> bool" where
  "isModified d p = (p \<in> modified d)"

text \<open>Assignments the controllers and hooks make; an assignment of the value a path
  already holds does not mark the path.\<close>

definition set_stock :: "nat \<Rightarrow> decor_doc \<Rightarrow> decor_doc" where
  "set_stock v d =
     (if stock (doc d) = v then d
      else d\<lparr>doc := (doc d)\<lparr>stock := v\<rparr>, modified := insert P_stock (modified d)\<rparr>)"

definition set_status :: "DecorStatus \<Rightarrow> decor_doc \<Rightarrow> decor_doc" where
  "set_status v d =
     (if status (doc d) = v then d
      else d\<lparr>doc := (doc d)\<lparr>status := v\<rparr>, modified := insert P_status (modified d)\<rparr>)"

definition set_slug :: "string \<Rightarrow> decor_doc \<Rightarrow> decor_doc" where
  "set_slug v d =
     (if slug (doc d) = v then d
      else d\<lparr>doc := (doc d)\<lparr>slug := v\<rparr>, modified := insert P_slug (modified d)\<rparr>)"

definition clear_originalPrice :: "decor_doc \<Rightarrow> decor_doc" where
  "clear_originalPrice d =
     (if originalPrice (doc d) = None then d
      else d\<lparr>doc := (doc d)\<lparr>originalPrice := None\<rparr>,
             modified := insert P_originalPrice (modified d)\<rparr>)"

definition set_createdAt :: "int option \<Rightarrow> decor_doc \<Rightarrow> decor_doc" where
  "set_createdAt v d =
     (if createdAt (doc d) = v then d
      else d\<lparr>doc := (doc d)\<lparr>createdAt := v\<rparr>, modified := insert P_createdAt (modified d)\<rparr>)"

definition set_updatedAt :: "int option \<Rightarrow> decor_doc \<Rightarrow> decor_doc" where
  "set_updatedAt v d =
     (if updatedAt (doc d) = v then d
      else d\<lparr>doc := (doc d)\<lparr>updatedAt := v\<rparr>, modified := insert P_updatedAt (modified d)\<rparr>)"

text \<open>A number used as a condition: \<open>undefined\<close> and \<open>0\<close> are false.\<close>

definition truthy :: "rat option \<Rightarrow> bool" where
  "truthy v = (case v of None \<Rightarrow> False | Some x \<Rightarrow> x \<noteq> 0)"

text \<open>
  An assignment of the original price goes through the setter of the schema,
  \<open>val ? Math.round(val * 100) / 100 : val\<close>.
\<close>

definition round2 :: "rat \<Rightarrow> rat" where
  "round2 v = rat_of_int \<lfloor>v * 100 + 1 / 2\<rfloor> / 100"

definition originalPrice_setter :: "rat option \<Rightarrow> rat option" where
  "originalPrice_setter v = (if truthy v then map_option round2 v else v)"

definition set_originalPrice :: "rat option \<Rightarrow> decor_doc \<Rightarrow> decor_doc" where
  "set_originalPrice v d =
     (if originalPrice (doc d) = originalPrice_setter v then d
      else d\<lparr>doc := (doc d)\<lparr>originalPrice := originalPrice_setter v\<rparr>,
             modified := insert P_originalPrice (modified d)\<rparr>)"

definition ge_price :: "rat \<Rightarrow> rat option \<Rightarrow> bool" where
  "ge_price p v = (case v of None \<Rightarrow> False | Some x \<Rightarrow> x \<le> p)"

text \<open>The three steps of \<open>decorSchema.pre("save")\<close>, in the order of the source.\<close>

definition pre_save_slug :: "decor_doc \<Rightarrow> decor_doc" where
  "pre_save_slug d =
     (if isModified d P_name then set_slug (generateSlug (name (doc d))) d else d)"

definition pre_save_status :: "decor_doc \<Rightarrow> decor_doc" where
  "pre_save_status d =
     (if isModified d P_stock then
        (if stock (doc d) = 0 \<and> status (doc d) \<noteq> DISCONTINUED
           then set_status OUT_OF_STOCK d
         else if stock (doc d) > 0 \<and> status (doc d) = OUT_OF_STOCK
           then set_status ACTIVE d
         else d)
      else d)"

definition pre_save_price :: "decor_doc \<Rightarrow> decor_doc" where
  "pre_save_price d =
     (if truthy (originalPrice (doc d)) \<and> ge_price (price (doc d)) (originalPrice (doc d))
        then clear_originalPrice d
      else d)"

definition decor_pre_save :: "decor_doc \<Rightarrow> decor_doc" where
  "decor_pre_save d = pre_save_price (pre_save_status (pre_save_slug d))"

text \<open>
  The hook the schema option \<open>timestamps\<close> installs when the schema is built, hence
  ahead of the hook above: a new document without creation time gets the current time,
  and a document that is new or has a marked path gets its update time, the creation
  time for a new one.
\<close>

definition timestamps_pre_save :: "int \<Rightarrow> decor_doc \<Rightarrow> decor_doc" where
  "timestamps_pre_save now d =
     (if isNew d then
        (let d1 = (if createdAt (doc d) = None then set_createdAt (Some now) d else d)
         in set_updatedAt (createdAt (doc d1)) d1)
      else if modified d = {} then d
      else set_updatedAt (Some now) d)"

text \<open>
  The validators of the schema. Stock, counters and the status are within their bounds
  by their types.
\<close>

definition decor_valid :: "decor \<Rightarrow> bool" where
  "decor_valid d =
     (name d \<noteq> [] \<and> length (name d) \<le> 200
      \<and> description d \<noteq> [] \<and> length (description d) \<le> 2000
      \<and> 0 \<le> price d
      \<and> (case originalPrice d of None \<Rightarrow> True | Some v \<Rightarrow> 0 \<le> v)
      \<and> length (images d) \<le> 10
      \<and> length (tags d) \<le> 20
      \<and> materials d \<noteq> [] \<and> length (materials d) \<le> 15
      \<and> (case careInstructions d of None \<Rightarrow> True | Some t \<Rightarrow> length t \<le> 1000)
      \<and> 0 \<le> rating_average d \<and> rating_average d \<le> 5)"

text \<open>
  The decor collection. \<open>findById\<close> hands out a document that is not new and has no
  marked path.
\<close>

type_synonym decor_store = "oid \<rightharpoonup> decor"

definition Decor_findById :: "decor_store \<Rightarrow> oid \<Rightarrow> decor_doc option" where
  "Decor_findById decors i =
     (case decors i of
        None \<Rightarrow> None
      | Some d \<Rightarrow> Some \<lparr>doc_id = i, doc = d, modified = {}, isNew = False\<rparr>)"

text \<open>The update a save of a loaded document sends: the marked paths of the document
  are written over the stored fields.\<close>

definition set_paths :: "decor_doc \<Rightarrow> decor \<Rightarrow> decor" where
  "set_paths d stored =
     stored\<lparr>name := (if isModified d P_name then name (doc d) else name stored),
            slug := (if isModified d P_slug then slug (doc d) else slug stored),
            category := (if isModified d P_category then category (doc d) else category stored),
            price := (if isModified d P_price then price (doc d) else price stored),
            originalPrice :=
              (if isModified d P_originalPrice then originalPrice (doc d)
               else originalPrice stored),
            stock := (if isModified d P_stock then stock (doc d) else stock stored),
            status := (if isModified d P_status then status (doc d) else status stored),
            createdAt :=
              (if isModified d P_createdAt then createdAt (doc d) else createdAt stored),
            updatedAt :=
              (if isModified d P_updatedAt then updatedAt (doc d) else updatedAt stored)\<rparr>"

text \<open>
  A save at the time \<open>now\<close>. The document is validated, which throws (\<open>None\<close>) when a
  validator fails; then the two hooks run. A new document is inserted whole, which
  throws when its identifier is taken. A loaded document with no marked path is not
  written; one with marked paths has them written over the stored document, which
  throws when the collection does not hold it. The document handed back is no longer
  new and has no marked path. The unique index on the slug is not modelled.
\<close>

definition Decor_save ::
  "int \<Rightarrow> decor_doc \<Rightarrow> decor_store \<Rightarrow> (decor_doc \<times> decor_store) option" where
  "Decor_save now d decors =
     (if \<not> decor_valid (doc d) then None
      else
        (let d' = decor_pre_save (timestamps_pre_save now d);
             saved = d'\<lparr>modified := {}, isNew := False\<rparr>
         in if isNew d' then
              (case decors (doc_id d') of
                 Some other \<Rightarrow> None
               | None \<Rightarrow> Some (saved, decors(doc_id d' \<mapsto> doc d')))
            else if modified d' = {} then Some (saved, decors)
            else
              (case decors (doc_id d') of
                 None \<Rightarrow> None
               | Some stored \<Rightarrow> Some (saved, decors(doc_id d' \<mapsto> set_paths d' stored)))))"

text \<open>The collection a save leaves: the one it was given when the save throws.\<close>

definition decors_after_save :: "int \<Rightarrow> decor_doc \<Rightarrow> decor_store \<Rightarrow> decor_store" where
  "decors_after_save now d decors =
     (case Decor_save now d decors of None \<Rightarrow> decors | Some (d', decors') \<Rightarrow> decors')"

text \<open>A loaded document is in step with the stored one when its fields are the stored
  fields with its marked paths written over them.\<close>

definition in_step :: "decor_doc \<Rightarrow> decor \<Rightarrow> bool" where
  "in_step d stored = (set_paths d stored = doc d)"

subsection \<open>The stock controller (controllers/decorController.ts, updateStock)\<close>

record stock_body =
  sb_id :: oid
  sb_stock :: nat
  sb_status :: DecorStatus

datatype 'a response = Response (http_status: nat) (body: "'a option")

text \<open>The assignments the controller makes on the loaded document before it saves it.\<close>

definition stock_assignments :: "nat \<Rightarrow> decor_doc \<Rightarrow> decor_doc" where
  "stock_assignments new_stock decor0 =
     (let decor1 = set_stock new_stock decor0
      in if new_stock = 0 then set_status OUT_OF_STOCK decor1
         else if status (doc decor1) = OUT_OF_STOCK then set_status ACTIVE decor1
         else decor1)"

text \<open>The controller, run at the time \<open>now\<close>.\<close>

definition updateStock ::
  "int \<Rightarrow> decor_store \<Rightarrow> oid \<Rightarrow> nat \<Rightarrow> stock_body response \<times> decor_store" where
  "updateStock now decors i new_stock =
     (case Decor_findById decors i of
        None \<Rightarrow> (Response 404 None, decors)
      | Some decor0 \<Rightarrow>
          (case Decor_save now (stock_assignments new_stock decor0) decors of
             None \<Rightarrow> (Response 500 None, decors)
           | Some (decor3, decors') \<Rightarrow>
               (Response 200
                  (Some \<lparr>sb_id = doc_id decor3, sb_stock = stock (doc decor3),
                         sb_status = status (doc decor3)\<rparr>),
                decors')))"

text \<open>A decor used in the examples below, created and last saved at second 100.\<close>

definition lamp :: decor where
  "lamp = \<lparr>name = ''Desk Lamp'', slug = ''desk-lamp'', description = ''A lamp'',
           category = ''c1'', price = 10, originalPrice = None, stock = 5,
           status = ACTIVE, featured = False, images = [], tags = [],
           materials = [''wood''], careInstructions = None, rating_average = 0,
           rating_count = 0, views = 0, salesCount = 0, createdBy = ''u1'',
           createdAt = Some 100, updatedAt = Some 100\<rparr>"

section \<open>Users and the user-management controllers (controllers/userController.ts)\<close>

datatype UserRole = USER | ADMIN | SUPER_ADMIN

text \<open>
  The fields of a user that the controllers read or assign, as the interface \<open>IUser\<close>
  (types/index.ts) declares them; the password is the stored digest. The user schema
  itself (models/User.ts) is not among the sources: a save is taken to write the fields
  as the controller left them.
\<close>

record user =
  firstName :: string
  lastName :: string
  email :: string
  password :: string
  role :: UserRole
  isActive :: bool
  lastLogin :: "int option"

text \<open>
  The user collection, in insertion order: \<open>findById\<close> looks an identifier up,
  \<open>findOne({ email })\<close> returns the first user with the address, \<open>save\<close> writes the
  fields of a loaded document back, \<open>findByIdAndDelete\<close> removes it.
\<close>

type_synonym user_store = "(oid \<times> user) list"

definition User_findById :: "user_store \<Rightarrow> oid \<Rightarrow> user option" where
  "User_findById users i = map_of users i"

definition User_findOne_email :: "user_store \<Rightarrow> string \<Rightarrow> (oid \<times> user) option" where
  "User_findOne_email users e = find (\<lambda>(i, u). email u = e) users"

definition User_save :: "oid \<Rightarrow> user \<Rightarrow> user_store \<Rightarrow> user_store" where
  "User_save i u users = map (\<lambda>(j, v). if j = i then (j, u) else (j, v)) users"

definition User_findByIdAndDelete :: "oid \<Rightarrow> user_store \<Rightarrow> user_store" where
  "User_findByIdAndDelete i users = filter (\<lambda>(j, v). j \<noteq> i) users"

text \<open>The identity a verified request carries (\<open>IAuthUser\<close>).\<close>

record auth_user =
  au_id :: oid
  au_email :: string
  au_role :: UserRole

text \<open>
  \<open>authorize(...roles)\<close> (middlewares/auth.ts): \<open>None\<close> is the call of \<open>next()\<close>,
  \<open>Some s\<close> the response with status \<open>s\<close>.
\<close>

definition authorize :: "UserRole list \<Rightarrow> auth_user option \<Rightarrow> nat option" where
  "authorize roles req_user =
     (case req_user of
        None \<Rightarrow> Some 401
      | Some u \<Rightarrow> if au_role u \<notin> set roles then Some 403 else None)"

definition adminOnly :: "auth_user option \<Rightarrow> nat option" where
  "adminOnly = authorize [ADMIN, SUPER_ADMIN]"

definition superAdminOnly :: "auth_user option \<Rightarrow> nat option" where
  "superAdminOnly = authorize [SUPER_ADMIN]"

text \<open>The controllers return the status of the response and the collection they leave.\<close>

record update_body =
  b_firstName :: "string option"
  b_lastName :: "string option"
  b_role :: "UserRole option"
  b_isActive :: "bool option"

definition updateUser :: "user_store \<Rightarrow> oid \<Rightarrow> update_body \<Rightarrow> nat \<times> user_store" where
  "updateUser users i b =
     (case User_findById users i of
        None \<Rightarrow> (404, users)
      | Some user0 \<Rightarrow>
          (let user1 = (case b_firstName b of None \<Rightarrow> user0 | Some v \<Rightarrow> user0\<lparr>firstName := v\<rparr>);
               user2 = (case b_lastName b of None \<Rightarrow> user1 | Some v \<Rightarrow> user1\<lparr>lastName := v\<rparr>);
               user3 = (case b_role b of None \<Rightarrow> user2 | Some v \<Rightarrow> user2\<lparr>role := v\<rparr>);
               user4 = (case b_isActive b of None \<Rightarrow> user3 | Some v \<Rightarrow> user3\<lparr>isActive := v\<rparr>)
           in (200, User_save i user4 users)))"

definition deleteUser :: "user_store \<Rightarrow> oid \<Rightarrow> nat \<times> user_store" where
  "deleteUser users i =
     (case User_findById users i of
        None \<Rightarrow> (404, users)
      | Some u \<Rightarrow>
          if role u = SUPER_ADMIN then (403, users)
          else (200, User_findByIdAndDelete i users))"

definition deactivateUser :: "user_store \<Rightarrow> oid \<Rightarrow> nat \<times> user_store" where
  "deactivateUser users i =
     (case User_findById users i of
        None \<Rightarrow> (404, users)
      | Some u \<Rightarrow>
          if role u = SUPER_ADMIN then (403, users)
          else (200, User_save i (u\<lparr>isActive := False\<rparr>) users))"

definition activateUser :: "user_store \<Rightarrow> oid \<Rightarrow> nat \<times> user_store" where
  "activateUser users i =
     (case User_findById users i of
        None \<Rightarrow> (404, users)
      | Some u \<Rightarrow> (200, User_save i (u\<lparr>isActive := True\<rparr>) users))"

definition promoteToAdmin :: "user_store \<Rightarrow> oid \<Rightarrow> nat \<times> user_store" where
  "promoteToAdmin users i =
     (case User_findById users i of
        None \<Rightarrow> (404, users)
      | Some u \<Rightarrow>
          if role u = ADMIN \<or> role u = SUPER_ADMIN then (400, users)
          else (200, User_save i (u\<lparr>role := ADMIN\<rparr>) users))"

definition demoteFromAdmin :: "user_store \<Rightarrow> oid \<Rightarrow> nat \<times> user_store" where
  "demoteFromAdmin users i =
     (case User_findById users i of
        None \<Rightarrow> (404, users)
      | Some u \<Rightarrow>
          if role u = SUPER_ADMIN then (403, users)
          else if role u = USER then (400, users)
          else (200, User_save i (u\<lparr>role := USER\<rparr>) users))"

text \<open>
  The routes (routes/userRoutes.ts) put the role gate before the controller; the
  request has passed \<open>authenticate\<close>, which attached \<open>caller\<close>. The body schema of the
  update route admits names of 1 to 50 characters, counted after trimming, and the roles
  \<open>user\<close> and \<open>admin\<close> only.
\<close>

definition name_valid :: "string option \<Rightarrow> bool" where
  "name_valid v =
     (case v of None \<Rightarrow> True | Some t \<Rightarrow> 1 \<le> length (trim t) \<and> length (trim t) \<le> 50)"

definition update_body_valid :: "update_body \<Rightarrow> bool" where
  "update_body_valid b =
     (name_valid (b_firstName b) \<and> name_valid (b_lastName b) \<and> b_role b \<noteq> Some SUPER_ADMIN)"

definition gated ::
  "nat option \<Rightarrow> user_store \<Rightarrow> nat \<times> user_store \<Rightarrow> nat \<times> user_store" where
  "gated gate users handler = (case gate of Some s \<Rightarrow> (s, users) | None \<Rightarrow> handler)"

text \<open>Modelled from the spec: the \<open>validate\<close> middleware (middlewares/validation) is not
  among the sources; a body the schema refuses is answered with status 400.\<close>

definition route_updateUser ::
  "auth_user option \<Rightarrow> user_store \<Rightarrow> oid \<Rightarrow> update_body \<Rightarrow> nat \<times> user_store" where
  "route_updateUser caller users i b =
     gated (adminOnly caller) users
       (if update_body_valid b then updateUser users i b else (400, users))"

definition route_deleteUser :: "auth_user option \<Rightarrow> user_store \<Rightarrow> oid \<Rightarrow> nat \<times> user_store" where
  "route_deleteUser caller users i = gated (adminOnly caller) users (deleteUser users i)"

definition route_deactivateUser ::
  "auth_user option \<Rightarrow> user_store \<Rightarrow> oid \<Rightarrow> nat \<times> user_store" where
  "route_deactivateUser caller users i = gated (adminOnly caller) users (deactivateUser users i)"

definition route_demoteFromAdmin ::
  "auth_user option \<Rightarrow> user_store \<Rightarrow> oid \<Rightarrow> nat \<times> user_store" where
  "route_demoteFromAdmin caller users i =
     gated (superAdminOnly caller) users (demoteFromAdmin users i)"

text \<open>Two accounts used in the examples below.\<close>

definition root_user :: user where
  "root_user = \<lparr>firstName = ''Super'', lastName = ''Admin'', email = ''admin@craftopia.com'',
                 password = ''digest'', role = SUPER_ADMIN, isActive = True, lastLogin = None\<rparr>"

definition admin_caller :: auth_user where
  "admin_caller = \<lparr>au_id = ''u2'', au_email = ''staff@craftopia.com'', au_role = ADMIN\<rparr>"

section \<open>Configuration and tokens (config/index.ts, utils/auth.ts)\<close>

text \<open>
  The environment gives each variable a string or nothing. \<open>a || b\<close> on strings takes
  \<open>b\<close> when \<open>a\<close> is undefined or empty.
\<close>

record env =
  env_JWT_SECRET :: "string option"
  env_JWT_EXPIRE :: "string option"
  env_JWT_REFRESH_SECRET :: "string option"

definition or_else :: "string option \<Rightarrow> string \<Rightarrow> string" where
  "or_else a b = (case a of None \<Rightarrow> b | Some v \<Rightarrow> if v = [] then b else v)"

record config =
  JWT_SECRET :: string
  JWT_EXPIRE :: string

definition load_config :: "env \<Rightarrow> config" where
  "load_config e =
     \<lparr>JWT_SECRET = or_else (env_JWT_SECRET e) ''your-super-secret-jwt-key'',
      JWT_EXPIRE = or_else (env_JWT_EXPIRE e) ''7d''\<rparr>"

text \<open>
  The signing library is a collaborator; it is modelled symbolically. A token is either
  a string that is no token, or a payload with the time it was issued at, the time it
  expires at (both in seconds) and the key it was signed with.

  A time span given as a string is read by the library \<open>ms\<close>: at most 100 characters,
  an optional minus sign, a decimal number (digits, digits with a fraction, or a
  fraction alone), any number of spaces, and an optional unit in any case; the value is
  in milliseconds, and a number without unit is milliseconds. A string of another form
  has no value, and signing throws. The number is taken exactly, where the library
  computes it in floating point.
\<close>

datatype jwt = Malformed | Jwt auth_user int int string

fun digits_value :: "string \<Rightarrow> nat \<Rightarrow> nat" where
  "digits_value [] acc = acc"
| "digits_value (c # cs) acc = digits_value cs (10 * acc + ((of_char c :: nat) - 48))"

definition unit_ms :: "string \<Rightarrow> rat option" where
  "unit_ms u =
     (if u \<in> set [[], ''milliseconds'', ''millisecond'', ''msecs'', ''msec'', ''ms'']
        then Some 1
      else if u \<in> set [''seconds'', ''second'', ''secs'', ''sec'', ''s''] then Some 1000
      else if u \<in> set [''minutes'', ''minute'', ''mins'', ''min'', ''m''] then Some 60000
      else if u \<in> set [''hours'', ''hour'', ''hrs'', ''hr'', ''h''] then Some 3600000
      else if u \<in> set [''days'', ''day'', ''d''] then Some 86400000
      else if u \<in> set [''weeks'', ''week'', ''w''] then Some 604800000
      else if u \<in> set [''years'', ''year'', ''yrs'', ''yr'', ''y''] then Some 31557600000
      else None)"

definition ms :: "string \<Rightarrow> rat option" where
  "ms str =
     (if length str > 100 then None
      else
        (let negative = (take 1 str = ''-'');
             unsigned = (if negative then drop 1 str else str);
             whole = takeWhile is_digit unsigned;
             rest = dropWhile is_digit unsigned;
             dotted = (take 1 rest = ''.'');
             fraction = (if dotted then takeWhile is_digit (drop 1 rest) else []);
             tail = (if dotted then dropWhile is_digit (drop 1 rest) else rest);
             unit_name = toLowerCase (dropWhile (\<lambda>c. c = CHR '' '') tail);
             number = rat_of_nat (digits_value whole 0)
                      + rat_of_nat (digits_value fraction 0) / 10 ^ length fraction
         in if (if dotted then fraction = [] else whole = []) then None
            else map_option (\<lambda>k. (if negative then - number else number) * k)
                   (unit_ms unit_name)))"

text \<open>\<open>jwt.sign\<close> with the option \<open>expiresIn\<close>: the expiry is
  \<open>Math.floor(iat + ms(expiresIn) / 1000)\<close>.\<close>

definition jwt_sign :: "auth_user \<Rightarrow> string \<Rightarrow> string \<Rightarrow> int \<Rightarrow> jwt option" where
  "jwt_sign payload secret expiresIn now =
     (case ms expiresIn of
        None \<Rightarrow> None
      | Some millis \<Rightarrow> Some (Jwt payload now \<lfloor>rat_of_int now + millis / 1000\<rfloor> secret))"

text \<open>Verification throws (\<open>None\<close>) without a key, on a string that is no token, on a
  token signed with another key, and from the second of expiry on.\<close>

definition jwt_verify :: "jwt \<Rightarrow> string option \<Rightarrow> int \<Rightarrow> auth_user option" where
  "jwt_verify token secret now =
     (case secret of
        None \<Rightarrow> None
      | Some k \<Rightarrow>
          if k = [] then None
          else (case token of
                  Malformed \<Rightarrow> None
                | Jwt payload issued expires signed_with \<Rightarrow>
                    if signed_with \<noteq> k then None
                    else if expires \<le> now then None
                    else Some payload))"

definition generateTokens :: "config \<Rightarrow> auth_user \<Rightarrow> int \<Rightarrow> (jwt \<times> jwt) option" where
  "generateTokens cfg payload now =
     (if JWT_SECRET cfg = [] then None
      else (case jwt_sign payload (JWT_SECRET cfg)
                   (if JWT_EXPIRE cfg = [] then ''24h'' else JWT_EXPIRE cfg) now of
              None \<Rightarrow> None
            | Some accessToken \<Rightarrow>
                (case jwt_sign payload (JWT_SECRET cfg) ''7d'' now of
                   None \<Rightarrow> None
                 | Some refreshToken \<Rightarrow> Some (accessToken, refreshToken))))"

definition verifyToken :: "config \<Rightarrow> jwt \<Rightarrow> int \<Rightarrow> auth_user option" where
  "verifyToken cfg token now =
     (if JWT_SECRET cfg = [] then None else jwt_verify token (Some (JWT_SECRET cfg)) now)"

definition expiry :: "jwt \<Rightarrow> int option" where
  "expiry token = (case token of Malformed \<Rightarrow> None | Jwt payload issued expires k \<Rightarrow> Some expires)"

section \<open>The authentication controllers (controllers/authController.ts)\<close>

text \<open>
  The refresh endpoint reads the cookie, verifies it with the variable
  \<open>JWT_REFRESH_SECRET\<close> of the environment, loads the user and mints new tokens; any
  exception is answered with 401. The result is the status with, on success, the access
  token of the body and the refresh token of the new cookie.
\<close>

definition refreshToken ::
  "env \<Rightarrow> user_store \<Rightarrow> jwt option \<Rightarrow> int \<Rightarrow> nat \<times> (jwt \<times> jwt) option" where
  "refreshToken e users cookie now =
     (case cookie of
        None \<Rightarrow> (401, None)
      | Some token \<Rightarrow>
          (case jwt_verify token (env_JWT_REFRESH_SECRET e) now of
             None \<Rightarrow> (401, None)
           | Some decoded \<Rightarrow>
               (case User_findById users (au_id decoded) of
                  None \<Rightarrow> (401, None)
                | Some u \<Rightarrow>
                    if \<not> isActive u then (401, None)
                    else (case generateTokens (load_config e)
                                 \<lparr>au_id = au_id decoded, au_email = email u, au_role = role u\<rparr>
                                 now of
                            None \<Rightarrow> (401, None)
                          | Some tokens \<Rightarrow> (200, Some tokens)))))"

text \<open>The password library, symbolically: a digest is the password under a marker.\<close>

definition bcrypt_hash :: "string \<Rightarrow> string" where
  "bcrypt_hash pw = ''$2b$12$'' @ pw"

definition bcrypt_compare :: "string \<Rightarrow> string \<Rightarrow> bool" where
  "bcrypt_compare pw digest = (digest = bcrypt_hash pw)"

definition login ::
  "config \<Rightarrow> user_store \<Rightarrow> string \<Rightarrow> string \<Rightarrow> int
     \<Rightarrow> (nat \<times> (jwt \<times> jwt) option) \<times> user_store" where
  "login cfg users e pw now =
     (case User_findOne_email users e of
        None \<Rightarrow> ((401, None), users)
      | Some (i, u) \<Rightarrow>
          if \<not> isActive u then ((403, None), users)
          else if \<not> bcrypt_compare pw (password u) then ((401, None), users)
          else (let users' = User_save i (u\<lparr>lastLogin := Some now\<rparr>) users
                in (case generateTokens cfg
                           \<lparr>au_id = i, au_email = email u, au_role = role u\<rparr> now of
                      None \<Rightarrow> ((500, None), users')
                    | Some tokens \<Rightarrow> ((200, Some tokens), users'))))"

section \<open>The authentication middleware (middlewares/auth.ts)\<close>

text \<open>
  A request carries an Authorization header, or none, and a cookie named \<open>token\<close>, or
  none. A header that starts with \<open>Bearer\<close> gives the piece after the first space, if
  there is one; the cookie is read only when the header is absent or of another scheme.
\<close>

datatype authorization = Bearer "jwt option" | Other_scheme

record request =
  authorization :: "authorization option"
  cookie_token :: "jwt option"

definition extract_token :: "request \<Rightarrow> jwt option" where
  "extract_token req =
     (case authorization req of
        Some (Bearer piece) \<Rightarrow> piece
      | Some Other_scheme \<Rightarrow> cookie_token req
      | None \<Rightarrow> cookie_token req)"

datatype outcome = Respond nat | Next auth_user

definition authenticate :: "config \<Rightarrow> user_store \<Rightarrow> request \<Rightarrow> int \<Rightarrow> outcome" where
  "authenticate cfg users req now =
     (case extract_token req of
        None \<Rightarrow> Respond 401
      | Some token \<Rightarrow>
          (case verifyToken cfg token now of
             None \<Rightarrow> Respond 401
           | Some decoded \<Rightarrow>
               (case User_findById users (au_id decoded) of
                  None \<Rightarrow> Respond 401
                | Some u \<Rightarrow>
                    if \<not> isActive u then Respond 401
                    else Next \<lparr>au_id = au_id decoded, au_email = email u, au_role = role u\<rparr>)))"

text \<open>An environment that sets the signing secret only, and two more accounts.\<close>

definition default_env :: env where
  "default_env = \<lparr>env_JWT_SECRET = Some ''k1'', env_JWT_EXPIRE = None,
                   env_JWT_REFRESH_SECRET = None\<rparr>"

definition staff :: user where
  "staff = \<lparr>firstName = ''Ann'', lastName = ''Lee'', email = ''staff@craftopia.com'',
             password = bcrypt_hash ''Secret1'', role = ADMIN, isActive = True,
             lastLogin = None\<rparr>"

definition leaver :: user where
  "leaver = staff\<lparr>isActive := False\<rparr>"

section \<open>Categories and the decor count (models/Category.ts, models/Decor.ts)\<close>

record category =
  c_name :: string
  c_slug :: string
  c_description :: "string option"
  c_icon :: "string option"
  c_isActive :: bool
  decorCount :: int
  c_createdBy :: oid

text \<open>A category document in memory, with the mark of an assigned name;
  \<open>categorySchema.pre("save")\<close> derives the slug.\<close>

record category_doc =
  cdoc :: category
  name_modified :: bool

definition category_pre_save :: "category_doc \<Rightarrow> category_doc" where
  "category_pre_save c =
     (if name_modified c then c\<lparr>cdoc := (cdoc c)\<lparr>c_slug := generateSlug (c_name (cdoc c))\<rparr>\<rparr>
      else c)"

type_synonym category_store = "oid \<rightharpoonup> category"

record db =
  db_decors :: decor_store
  db_categories :: category_store

text \<open>\<open>Category.findByIdAndUpdate(id, { $inc: { decorCount: n } })\<close>: a category that
  does not exist is not created.\<close>

definition Category_inc_decorCount :: "oid \<Rightarrow> int \<Rightarrow> category_store \<Rightarrow> category_store" where
  "Category_inc_decorCount i n cats =
     (case cats i of
        None \<Rightarrow> cats
      | Some c \<Rightarrow> cats(i \<mapsto> c\<lparr>decorCount := decorCount c + n\<rparr>))"

text \<open>
  The operations that run middleware, and the post hooks the decor schema registers:
  one for the save of a document, one for \<open>deleteOne\<close> called on a document
  (\<open>{ document: true, query: false }\<close>), none for the query \<open>findOneAndDelete\<close>, which
  is what \<open>Model.findByIdAndDelete\<close> issues. A hook sees the document as it is when the
  hook runs.
\<close>

datatype middleware = Document_save | Document_deleteOne | Query_findOneAndDelete

fun decor_post :: "middleware \<Rightarrow> decor_doc \<Rightarrow> category_store \<Rightarrow> category_store" where
  "decor_post Document_save d cats =
     (if isModified d P_category \<or> isNew d
        then Category_inc_decorCount (category (doc d)) 1 cats
      else cats)"
| "decor_post Document_deleteOne d cats = Category_inc_decorCount (category (doc d)) (- 1) cats"
| "decor_post Query_findOneAndDelete d cats = cats"

definition Decor_findByIdAndDelete :: "oid \<Rightarrow> db \<Rightarrow> db" where
  "Decor_findByIdAndDelete i s =
     (case Decor_findById (db_decors s) i of
        None \<Rightarrow> s
      | Some d \<Rightarrow>
          \<lparr>db_decors = (db_decors s)(i := None),
           db_categories = decor_post Query_findOneAndDelete d (db_categories s)\<rparr>)"

text \<open>\<open>deleteDecor\<close> (controllers/decorController.ts); the removal of the hosted images
  does not touch the database.\<close>

definition deleteDecor :: "db \<Rightarrow> oid \<Rightarrow> nat \<times> db" where
  "deleteDecor s i =
     (case Decor_findById (db_decors s) i of
        None \<Rightarrow> (404, s)
      | Some d \<Rightarrow> (200, Decor_findByIdAndDelete i s))"

definition lighting :: category where
  "lighting = \<lparr>c_name = ''Lighting'', c_slug = ''lighting'', c_description = None,
                c_icon = None, c_isActive = True, decorCount = 1, c_createdBy = ''u1''\<rparr>"

definition shop :: db where
  "shop = \<lparr>db_decors = [''d1'' \<mapsto> lamp], db_categories = [''c1'' \<mapsto> lighting]\<rparr>"

section \<open>Pagination of the list endpoints (controllers, routes)\<close>

text \<open>
  The query of a list request: the numbers \<open>parseInt\<close> reads from \<open>page\<close> and \<open>limit\<close>,
  \<open>None\<close> for a parameter that is absent. \<open>parseInt(x) || d\<close> takes \<open>d\<close> for an absent
  parameter and for 0.
\<close>

record list_query =
  q_page :: "int option"
  q_limit :: "int option"

definition parseInt_or :: "int option \<Rightarrow> int \<Rightarrow> int" where
  "parseInt_or v d = (case v of None \<Rightarrow> d | Some n \<Rightarrow> if n = 0 then d else n)"

text \<open>An endpoint: the default limit of its controller and the maximum of its query
  schema (100 for the users, 50 for the search).\<close>

record endpoint =
  ep_default :: int
  ep_max :: int

record 'a listing =
  used_skip :: int
  used_limit :: int
  items :: "'a list"
  currentPage :: int
  totalPages :: int
  totalCount :: int
  hasNextPage :: bool
  hasPrevPage :: bool

text \<open>\<open>find(filter).sort(sort).skip(skip).limit(limit)\<close> on the filtered, sorted
  collection: the database refuses a negative skip, reads a limit of 0 as no limit and a
  negative limit as its absolute value.\<close>

definition find_page :: "'a list \<Rightarrow> int \<Rightarrow> int \<Rightarrow> 'a list option" where
  "find_page coll skip limit =
     (if skip < 0 then None
      else if limit = 0 then Some (drop (nat skip) coll)
      else Some (take (nat \<bar>limit\<bar>) (drop (nat skip) coll)))"

definition Math_ceil_div :: "int \<Rightarrow> int \<Rightarrow> int" where
  "Math_ceil_div n limit = \<lceil>rat_of_int n / rat_of_int limit\<rceil>"

text \<open>The pagination all list controllers share (getAllUsers, getAllCategories,
  getCategoryDecors, getAllDecors, getActiveDecors, searchDecors); a failed query is
  \<open>None\<close>, answered with status 500.\<close>

definition list_controller :: "int \<Rightarrow> list_query \<Rightarrow> 'a list \<Rightarrow> 'a listing option" where
  "list_controller default_limit q coll =
     (let page = parseInt_or (q_page q) 1;
          limit = parseInt_or (q_limit q) default_limit;
          skip = (page - 1) * limit
      in (case find_page coll skip limit of
            None \<Rightarrow> None
          | Some found \<Rightarrow>
              (let count = int (length coll);
                   pages = Math_ceil_div count limit
               in Some \<lparr>used_skip = skip, used_limit = limit, items = found,
                         currentPage = page, totalPages = pages, totalCount = count,
                         hasNextPage = (page < pages), hasPrevPage = (page > 1)\<rparr>)))"

text \<open>Modelled from the spec: the \<open>validateQuery\<close> middleware and the shared schema
  \<open>querySchemas.pagination\<close> (middlewares/validation) are not among the sources. Following
  the schemas the routes write out (userRoutes.ts, decorRoutes.ts), a page below 1 and a
  limit outside 1 to the endpoint's maximum are validation errors, answered with 400.\<close>

definition validateQuery :: "endpoint \<Rightarrow> list_query \<Rightarrow> bool" where
  "validateQuery ep q =
     ((case q_page q of None \<Rightarrow> True | Some p \<Rightarrow> 1 \<le> p)
      \<and> (case q_limit q of None \<Rightarrow> True | Some l \<Rightarrow> 1 \<le> l \<and> l \<le> ep_max ep))"

definition list_endpoint :: "endpoint \<Rightarrow> list_query \<Rightarrow> 'a list \<Rightarrow> nat + 'a listing" where
  "list_endpoint ep q coll =
     (if \<not> validateQuery ep q then Inl 400
      else (case list_controller (ep_default ep) q coll of
              None \<Rightarrow> Inl 500
            | Some r \<Rightarrow> Inr r))"

text \<open>The helper \<open>getPagination\<close> (utils/response.ts), which clamps the page to at
  least 1 and the limit to 1 to 100. No controller calls it.\<close>

record pagination =
  pg_page :: int
  pg_limit :: int
  pg_total :: int
  pg_pages :: int
  pg_skip :: int
  pg_hasNext :: bool
  pg_hasPrev :: bool

definition getPagination :: "int \<Rightarrow> int \<Rightarrow> int \<Rightarrow> pagination" where
  "getPagination page limit n =
     (let currentPage = max 1 page;
          itemsPerPage = min (max 1 limit) 100;
          totalPages = Math_ceil_div n itemsPerPage;
          skip = (currentPage - 1) * itemsPerPage
      in \<lparr>pg_page = currentPage, pg_limit = itemsPerPage, pg_total = n,
          pg_pages = totalPages, pg_skip = skip,
          pg_hasNext = (currentPage < totalPages), pg_hasPrev = (currentPage > 1)\<rparr>)"

definition users_endpoint :: endpoint where
  "users_endpoint = \<lparr>ep_default = 10, ep_max = 100\<rparr>"

text \<open>A decor and a category that have just been given the name of a seeded category.\<close>

definition wall_art :: decor_doc where
  "wall_art = \<lparr>doc_id = ''d2'', doc = lamp\<lparr>name := ''Wall Art & Decor'', slug := []\<rparr>,
               modified = {P_name}, isNew = True\<rparr>"

definition wall_art_category :: category_doc where
  "wall_art_category =
     \<lparr>cdoc = lighting\<lparr>c_name := ''Wall Art & Decor'', c_slug := []\<rparr>, name_modified = True\<rparr>"

section \<open>Properties of the save\<close>

lemma setters_doc_id [simp]:
  "doc_id (set_stock n d) = doc_id d"
  "doc_id (set_status st d) = doc_id d"
  "doc_id (set_slug t d) = doc_id d"
  "doc_id (clear_originalPrice d) = doc_id d"
  "doc_id (set_originalPrice v d) = doc_id d"
  "doc_id (set_createdAt ts d) = doc_id d"
  "doc_id (set_updatedAt ts d) = doc_id d"
  by (simp_all add: set_stock_def set_status_def set_slug_def clear_originalPrice_def
      set_originalPrice_def set_createdAt_def set_updatedAt_def)

lemma setters_isNew [simp]:
  "isNew (set_stock n d) = isNew d"
  "isNew (set_status st d) = isNew d"
  "isNew (set_slug t d) = isNew d"
  "isNew (clear_originalPrice d) = isNew d"
  "isNew (set_originalPrice v d) = isNew d"
  "isNew (set_createdAt ts d) = isNew d"
  "isNew (set_updatedAt ts d) = isNew d"
  by (simp_all add: set_stock_def set_status_def set_slug_def clear_originalPrice_def
      set_originalPrice_def set_createdAt_def set_updatedAt_def)

lemma hooks_doc_id [simp]:
  "doc_id (pre_save_slug d) = doc_id d"
  "doc_id (pre_save_status d) = doc_id d"
  "doc_id (pre_save_price d) = doc_id d"
  "doc_id (decor_pre_save d) = doc_id d"
  "doc_id (timestamps_pre_save now d) = doc_id d"
  by (simp_all add: pre_save_slug_def pre_save_status_def pre_save_price_def
      decor_pre_save_def timestamps_pre_save_def Let_def)

lemma hooks_isNew [simp]:
  "isNew (pre_save_slug d) = isNew d"
  "isNew (pre_save_status d) = isNew d"
  "isNew (pre_save_price d) = isNew d"
  "isNew (decor_pre_save d) = isNew d"
  "isNew (timestamps_pre_save now d) = isNew d"
  by (simp_all add: pre_save_slug_def pre_save_status_def pre_save_price_def
      decor_pre_save_def timestamps_pre_save_def Let_def)

lemma set_paths_unmarked: "modified d = {} \<Longrightarrow> set_paths d stored = stored"
  by (simp add: set_paths_def isModified_def)

lemma in_step_loaded: "in_step \<lparr>doc_id = i, doc = d, modified = {}, isNew = False\<rparr> d"
  by (simp add: in_step_def set_paths_unmarked)

lemma set_stock_in_step:
  assumes "in_step d stored"
  shows "in_step (set_stock v d) stored"
proof (cases "stock (doc d) = v")
  case True
  with assms show ?thesis by (simp add: set_stock_def)
next
  case False
  then have "set_paths (set_stock v d) stored = (set_paths d stored)\<lparr>stock := v\<rparr>"
    by (simp add: set_paths_def set_stock_def isModified_def)
  moreover have "doc (set_stock v d) = (doc d)\<lparr>stock := v\<rparr>"
    using False by (simp add: set_stock_def)
  ultimately show ?thesis
    using assms by (simp add: in_step_def)
qed

lemma set_status_in_step:
  assumes "in_step d stored"
  shows "in_step (set_status v d) stored"
proof (cases "status (doc d) = v")
  case True
  with assms show ?thesis by (simp add: set_status_def)
next
  case False
  then have "set_paths (set_status v d) stored = (set_paths d stored)\<lparr>status := v\<rparr>"
    by (simp add: set_paths_def set_status_def isModified_def)
  moreover have "doc (set_status v d) = (doc d)\<lparr>status := v\<rparr>"
    using False by (simp add: set_status_def)
  ultimately show ?thesis
    using assms by (simp add: in_step_def)
qed

lemma set_slug_in_step:
  assumes "in_step d stored"
  shows "in_step (set_slug v d) stored"
proof (cases "slug (doc d) = v")
  case True
  with assms show ?thesis by (simp add: set_slug_def)
next
  case False
  then have "set_paths (set_slug v d) stored = (set_paths d stored)\<lparr>slug := v\<rparr>"
    by (simp add: set_paths_def set_slug_def isModified_def)
  moreover have "doc (set_slug v d) = (doc d)\<lparr>slug := v\<rparr>"
    using False by (simp add: set_slug_def)
  ultimately show ?thesis
    using assms by (simp add: in_step_def)
qed

lemma set_originalPrice_in_step:
  assumes "in_step d stored"
  shows "in_step (set_originalPrice v d) stored"
proof (cases "originalPrice (doc d) = originalPrice_setter v")
  case True
  with assms show ?thesis by (simp add: set_originalPrice_def)
next
  case False
  then have "set_paths (set_originalPrice v d) stored
      = (set_paths d stored)\<lparr>originalPrice := originalPrice_setter v\<rparr>"
    by (simp add: set_paths_def set_originalPrice_def isModified_def)
  moreover have "doc (set_originalPrice v d) = (doc d)\<lparr>originalPrice := originalPrice_setter v\<rparr>"
    using False by (simp add: set_originalPrice_def)
  ultimately show ?thesis
    using assms by (simp add: in_step_def)
qed

lemma clear_originalPrice_in_step:
  assumes "in_step d stored"
  shows "in_step (clear_originalPrice d) stored"
proof (cases "originalPrice (doc d) = None")
  case True
  with assms show ?thesis by (simp add: clear_originalPrice_def)
next
  case False
  then obtain op where "originalPrice (doc d) = Some op"
    by auto
  then have "set_paths (clear_originalPrice d) stored
      = (set_paths d stored)\<lparr>originalPrice := None\<rparr>"
    by (simp add: set_paths_def clear_originalPrice_def isModified_def)
  moreover have "doc (clear_originalPrice d) = (doc d)\<lparr>originalPrice := None\<rparr>"
    using False by (simp add: clear_originalPrice_def)
  ultimately show ?thesis
    using assms by (simp add: in_step_def)
qed

lemma set_createdAt_in_step:
  assumes "in_step d stored"
  shows "in_step (set_createdAt v d) stored"
proof (cases "createdAt (doc d) = v")
  case True
  with assms show ?thesis by (simp add: set_createdAt_def)
next
  case False
  then have "set_paths (set_createdAt v d) stored = (set_paths d stored)\<lparr>createdAt := v\<rparr>"
    by (simp add: set_paths_def set_createdAt_def isModified_def)
  moreover have "doc (set_createdAt v d) = (doc d)\<lparr>createdAt := v\<rparr>"
    using False by (simp add: set_createdAt_def)
  ultimately show ?thesis
    using assms by (simp add: in_step_def)
qed

lemma set_updatedAt_in_step:
  assumes "in_step d stored"
  shows "in_step (set_updatedAt v d) stored"
proof (cases "updatedAt (doc d) = v")
  case True
  with assms show ?thesis by (simp add: set_updatedAt_def)
next
  case False
  then have "set_paths (set_updatedAt v d) stored = (set_paths d stored)\<lparr>updatedAt := v\<rparr>"
    by (simp add: set_paths_def set_updatedAt_def isModified_def)
  moreover have "doc (set_updatedAt v d) = (doc d)\<lparr>updatedAt := v\<rparr>"
    using False by (simp add: set_updatedAt_def)
  ultimately show ?thesis
    using assms by (simp add: in_step_def)
qed

lemma timestamps_in_step:
  assumes "in_step d stored"
  shows "in_step (timestamps_pre_save now d) stored"
  using assms
  by (simp add: timestamps_pre_save_def Let_def set_createdAt_in_step set_updatedAt_in_step)

lemma decor_pre_save_in_step:
  assumes "in_step d stored"
  shows "in_step (decor_pre_save d) stored"
proof -
  have "in_step (pre_save_slug d) stored"
    using assms by (simp add: pre_save_slug_def set_slug_in_step)
  then have "in_step (pre_save_status (pre_save_slug d)) stored"
    by (simp add: pre_save_status_def set_status_in_step)
  then show ?thesis
    by (simp add: decor_pre_save_def pre_save_price_def clear_originalPrice_in_step)
qed

text \<open>The save of a loaded document that is in step with the stored one and passes the
  validators writes the fields the hooks leave.\<close>

lemma Decor_save_loaded:
  assumes "decors (doc_id x) = Some stored" and "\<not> isNew x" and "in_step x stored"
      and "decor_valid (doc x)"
  shows "Decor_save now x decors =
           Some ((decor_pre_save (timestamps_pre_save now x))\<lparr>modified := {}, isNew := False\<rparr>,
                 decors(doc_id x \<mapsto> doc (decor_pre_save (timestamps_pre_save now x))))"
proof -
  define d' where "d' = decor_pre_save (timestamps_pre_save now x)"
  have same_id: "doc_id d' = doc_id x" and old: "\<not> isNew d'"
    using assms(2) by (simp_all add: d'_def)
  have "in_step d' stored"
    unfolding d'_def using assms(3) by (intro decor_pre_save_in_step timestamps_in_step)
  then have step: "set_paths d' stored = doc d'"
    by (simp add: in_step_def)
  have save: "Decor_save now x decors =
      (if modified d' = {} then Some (d'\<lparr>modified := {}, isNew := False\<rparr>, decors)
       else Some (d'\<lparr>modified := {}, isNew := False\<rparr>, decors(doc_id x \<mapsto> doc d')))"
    using assms(1,4) same_id old step
    by (simp add: Decor_save_def Let_def d'_def [symmetric])
  show ?thesis
  proof (cases "modified d' = {}")
    case True
    then have "doc d' = stored"
      using step by (simp add: set_paths_unmarked)
    then have "decors(doc_id x \<mapsto> doc d') = decors"
      using assms(1) by (simp add: fun_upd_idem)
    with True save show ?thesis
      by (simp add: d'_def)
  next
    case False
    with save show ?thesis
      by (simp add: d'_def)
  qed
qed

section \<open>Properties of the price rule\<close>

lemma hooks_prices [simp]:
  "originalPrice (doc (pre_save_slug d)) = originalPrice (doc d)"
  "price (doc (pre_save_slug d)) = price (doc d)"
  "originalPrice (doc (pre_save_status d)) = originalPrice (doc d)"
  "price (doc (pre_save_status d)) = price (doc d)"
  "originalPrice (doc (timestamps_pre_save now d)) = originalPrice (doc d)"
  "price (doc (timestamps_pre_save now d)) = price (doc d)"
  by (simp_all add: pre_save_slug_def set_slug_def pre_save_status_def set_status_def
      timestamps_pre_save_def Let_def set_createdAt_def set_updatedAt_def)

lemma pre_save_price_cleared:
  assumes "originalPrice (doc d) = Some op" and "op \<noteq> 0" and "op \<le> price (doc d)"
  shows "originalPrice (doc (pre_save_price d)) = None"
  using assms by (simp add: pre_save_price_def truthy_def ge_price_def clear_originalPrice_def)

lemma pre_save_price_kept:
  assumes "originalPrice (doc d) = Some op" and "price (doc d) < op"
  shows "originalPrice (doc (pre_save_price d)) = Some op"
  using assms by (simp add: pre_save_price_def truthy_def ge_price_def)

lemma pre_save_price_zero:
  assumes "originalPrice (doc d) = Some 0"
  shows "pre_save_price d = d"
  using assms by (simp add: pre_save_price_def truthy_def)

text \<open>Away from 0 the save does what the price rule says: an original price that is not
  above the price is removed from the stored document, one above it stays.\<close>

lemma save_originalPrice_loaded:
  assumes "decors (doc_id x) = Some stored" and "\<not> isNew x" and "in_step x stored"
      and "decor_valid (doc x)" and "originalPrice (doc x) = Some op"
  shows "(op \<noteq> 0 \<and> op \<le> price (doc x) \<longrightarrow>
            map_option originalPrice (decors_after_save now x decors (doc_id x)) = Some None)
       \<and> (price (doc x) < op \<longrightarrow>
            map_option originalPrice (decors_after_save now x decors (doc_id x))
              = Some (Some op))"
proof -
  define y where "y = pre_save_status (pre_save_slug (timestamps_pre_save now x))"
  have y: "originalPrice (doc y) = Some op" "price (doc y) = price (doc x)"
    using assms(5) by (simp_all add: y_def)
  have "decors_after_save now x decors (doc_id x) = Some (doc (pre_save_price y))"
    using Decor_save_loaded [where decors = decors and x = x and stored = stored and now = now]
      assms(1-4)
    by (simp add: decors_after_save_def decor_pre_save_def y_def)
  then show ?thesis
    using y pre_save_price_cleared [of y op] pre_save_price_kept [of y op] by simp
qed

text \<open>
  Claim C6 at an original price of 0. The stored lamp costs 10 and has no original
  price; an update assigns it the original price 0, which the schema accepts (its
  minimum is 0), and saves. The condition of the hook reads the number 0 as false, so
  the original price is not cleared: the stored document holds the original price 0,
  which is lower than the price 10.
\<close>

theorem save_originalPrice_zero:
  "Decor_findById [''d1'' \<mapsto> lamp] ''d1''
     = Some \<lparr>doc_id = ''d1'', doc = lamp, modified = {}, isNew = False\<rparr>
   \<and> price lamp = 10
   \<and> originalPrice
       (doc (set_originalPrice (Some 0)
               \<lparr>doc_id = ''d1'', doc = lamp, modified = {}, isNew = False\<rparr>)) = Some 0
   \<and> map_option originalPrice
       (decors_after_save 200
          (set_originalPrice (Some 0)
             \<lparr>doc_id = ''d1'', doc = lamp, modified = {}, isNew = False\<rparr>)
          [''d1'' \<mapsto> lamp] ''d1'')
       = Some (Some 0)"
proof -
  define x where "x = set_originalPrice (Some 0)
      \<lparr>doc_id = ''d1'', doc = lamp, modified = {}, isNew = False\<rparr>"
  have zero: "originalPrice (doc x) = Some 0"
    by (simp add: x_def set_originalPrice_def originalPrice_setter_def truthy_def)
  have x: "doc_id x = ''d1''" "\<not> isNew x" "in_step x lamp"
    by (simp_all add: x_def set_originalPrice_in_step in_step_loaded)
  have "decor_valid (doc x)"
    by (simp add: x_def set_originalPrice_def originalPrice_setter_def truthy_def
        decor_valid_def lamp_def)
  then have "Decor_save 200 x [''d1'' \<mapsto> lamp] =
      Some ((decor_pre_save (timestamps_pre_save 200 x))\<lparr>modified := {}, isNew := False\<rparr>,
            [''d1'' \<mapsto> lamp](''d1'' \<mapsto> doc (decor_pre_save (timestamps_pre_save 200 x))))"
    using Decor_save_loaded
            [where decors = "[''d1'' \<mapsto> lamp]" and x = x and stored = lamp and now = 200] x
    by simp
  moreover have "originalPrice (doc (decor_pre_save (timestamps_pre_save 200 x))) = Some 0"
    using zero by (simp add: decor_pre_save_def pre_save_price_zero)
  ultimately have "map_option originalPrice
      (decors_after_save 200 x [''d1'' \<mapsto> lamp] ''d1'') = Some (Some 0)"
    by (simp add: decors_after_save_def)
  moreover have "Decor_findById [''d1'' \<mapsto> lamp] ''d1''
      = Some \<lparr>doc_id = ''d1'', doc = lamp, modified = {}, isNew = False\<rparr>"
    by (simp add: Decor_findById_def)
  moreover have "price lamp = 10"
    by (simp add: lamp_def)
  ultimately show ?thesis
    using zero by (simp add: x_def)
qed

section \<open>Properties of the stock controller\<close>

lemma pre_save_status_zero:
  assumes "isModified d P_stock" and "stock (doc d) = 0" and "status (doc d) \<noteq> DISCONTINUED"
  shows "status (doc (pre_save_status d)) = OUT_OF_STOCK"
  using assms by (simp add: pre_save_status_def set_status_def)

lemma pre_save_status_restock:
  assumes "isModified d P_stock" and "0 < stock (doc d)" and "status (doc d) = OUT_OF_STOCK"
  shows "status (doc (pre_save_status d)) = ACTIVE"
  using assms by (simp add: pre_save_status_def set_status_def)

lemma pre_save_status_discontinued:
  assumes "status (doc d) = DISCONTINUED"
  shows "status (doc (pre_save_status d)) = DISCONTINUED"
  using assms by (simp add: pre_save_status_def set_status_def)

lemma set_stock_doc: "doc (set_stock v x) = (doc x)\<lparr>stock := v\<rparr>"
  by (simp add: set_stock_def)

lemma set_status_doc: "doc (set_status v x) = (doc x)\<lparr>status := v\<rparr>"
  by (simp add: set_status_def)

lemma set_updatedAt_doc: "doc (set_updatedAt v x) = (doc x)\<lparr>updatedAt := v\<rparr>"
  by (simp add: set_updatedAt_def)

lemma pre_save_slug_unmodified: "\<not> isModified x P_name \<Longrightarrow> pre_save_slug x = x"
  by (simp add: pre_save_slug_def)

lemma pre_save_price_invariant:
  assumes "\<forall>op. originalPrice (doc x) = Some op \<longrightarrow> price (doc x) < op"
  shows "pre_save_price x = x"
  using assms
  by (cases "originalPrice (doc x)") (auto simp: pre_save_price_def truthy_def ge_price_def)

lemma pre_save_price_status: "status (doc (pre_save_price x)) = status (doc x)"
  by (simp add: pre_save_price_def clear_originalPrice_def)

lemma pre_save_status_settled:
  assumes "stock (doc x) = 0 \<longrightarrow> status (doc x) = OUT_OF_STOCK"
      and "0 < stock (doc x) \<longrightarrow> status (doc x) \<noteq> OUT_OF_STOCK"
  shows "pre_save_status x = x"
  using assms by (simp add: pre_save_status_def set_status_def)

lemma stock_assignments_status:
  "status (doc (stock_assignments s x)) =
     (if s = 0 then OUT_OF_STOCK
      else if status (doc x) = OUT_OF_STOCK then ACTIVE else status (doc x))"
  by (simp add: stock_assignments_def Let_def set_status_doc set_stock_doc)

lemma stock_assignments_stock: "stock (doc (stock_assignments s x)) = s"
  by (simp add: stock_assignments_def Let_def set_status_doc set_stock_doc)

lemma stock_assignments_doc:
  "doc (stock_assignments s x) =
     (doc x)\<lparr>stock := s, status := status (doc (stock_assignments s x))\<rparr>"
  by (simp add: stock_assignments_def Let_def set_status_doc set_stock_doc)

lemma stock_assignments_keeps [simp]:
  "doc_id (stock_assignments s x) = doc_id x"
  "isNew (stock_assignments s x) = isNew x"
  by (simp_all add: stock_assignments_def Let_def)

lemma stock_assignments_in_step:
  assumes "in_step x stored"
  shows "in_step (stock_assignments s x) stored"
  using assms
  by (simp add: stock_assignments_def Let_def set_stock_in_step set_status_in_step)

text \<open>The controller marks the stock and the status, and only when it changes them.\<close>

lemma stock_assignments_modified:
  assumes "modified x = {}"
  shows "modified (stock_assignments s x) \<subseteq> {P_stock, P_status}"
    and "(modified (stock_assignments s x) = {}) =
           (stock (doc x) = s \<and> status (doc (stock_assignments s x)) = status (doc x))"
  using assms
  by (auto simp: stock_assignments_def Let_def set_stock_def set_status_def)

text \<open>The time hook of a loaded document changes the update time at most, and that
  only when a path is marked.\<close>

lemma timestamps_loaded:
  assumes "\<not> isNew x"
  shows "doc (timestamps_pre_save now x) =
           (doc x)\<lparr>updatedAt := (if modified x = {} then updatedAt (doc x) else Some now)\<rparr>"
    and "isModified (timestamps_pre_save now x) P_name = isModified x P_name"
  using assms
  by (simp_all add: timestamps_pre_save_def set_updatedAt_def isModified_def)

lemma updateStock_found:
  assumes "decors i = Some d" and "decor_valid d"
  shows "updateStock now decors i s =
     (let d3 = decor_pre_save (timestamps_pre_save now
                 (stock_assignments s \<lparr>doc_id = i, doc = d, modified = {}, isNew = False\<rparr>))
      in (Response 200 (Some \<lparr>sb_id = i, sb_stock = stock (doc d3),
                                sb_status = status (doc d3)\<rparr>),
          decors(i \<mapsto> doc d3)))"
proof -
  define x where
    "x = stock_assignments s \<lparr>doc_id = i, doc = d, modified = {}, isNew = False\<rparr>"
  have x: "doc_id x = i" "\<not> isNew x" "in_step x d"
    by (simp_all add: x_def stock_assignments_in_step in_step_loaded)
  have "doc x = d\<lparr>stock := s, status := status (doc x)\<rparr>"
    using stock_assignments_doc [of s "\<lparr>doc_id = i, doc = d, modified = {}, isNew = False\<rparr>"]
    by (simp add: x_def)
  then have "decor_valid (doc x) = decor_valid (d\<lparr>stock := s, status := status (doc x)\<rparr>)"
    by simp
  then have "decor_valid (doc x)"
    using assms(2) by (simp add: decor_valid_def)
  then have "Decor_save now x decors =
      Some ((decor_pre_save (timestamps_pre_save now x))\<lparr>modified := {}, isNew := False\<rparr>,
            decors(i \<mapsto> doc (decor_pre_save (timestamps_pre_save now x))))"
    using Decor_save_loaded [where decors = decors and x = x and stored = d and now = now]
      x assms(1)
    by simp
  then show ?thesis
    using assms(1) x(1)
    by (simp add: updateStock_def Decor_findById_def x_def [symmetric] Let_def)
qed

lemma updateStock_invalid:
  assumes "decors i = Some d" and "\<not> decor_valid d"
  shows "updateStock now decors i s = (Response 500 None, decors)"
proof -
  define x where
    "x = stock_assignments s \<lparr>doc_id = i, doc = d, modified = {}, isNew = False\<rparr>"
  have "doc x = d\<lparr>stock := s, status := status (doc x)\<rparr>"
    using stock_assignments_doc [of s "\<lparr>doc_id = i, doc = d, modified = {}, isNew = False\<rparr>"]
    by (simp add: x_def)
  then have "decor_valid (doc x) = decor_valid (d\<lparr>stock := s, status := status (doc x)\<rparr>)"
    by simp
  then have "\<not> decor_valid (doc x)"
    using assms(2) by (simp add: decor_valid_def)
  then show ?thesis
    using assms(1) by (simp add: updateStock_def Decor_findById_def Decor_save_def x_def)
qed

text \<open>What the hooks of the save do to the document the controller hands them.\<close>

lemma stock_save_hooks:
  fixes d :: decor and i :: oid and s :: nat and now :: int
  defines "x \<equiv> stock_assignments s \<lparr>doc_id = i, doc = d, modified = {}, isNew = False\<rparr>"
  defines "st \<equiv> (if s = 0 then OUT_OF_STOCK
                  else if status d = OUT_OF_STOCK then ACTIVE else status d)"
  shows "pre_save_status (pre_save_slug (timestamps_pre_save now x)) = timestamps_pre_save now x"
    and "doc (timestamps_pre_save now x) =
           d\<lparr>stock := s, status := st,
             updatedAt := (if stock d = s \<and> status d = st then updatedAt d else Some now)\<rparr>"
proof -
  define d0 where "d0 = \<lparr>doc_id = i, doc = d, modified = {}, isNew = False\<rparr>"
  have x_eq: "x = stock_assignments s d0"
    by (simp add: x_def d0_def)
  have old: "\<not> isNew x"
    by (simp add: x_eq) (simp add: d0_def)
  have status_x: "status (doc x) = st"
    by (simp add: x_eq stock_assignments_status st_def) (simp add: d0_def)
  have doc_x: "doc x = d\<lparr>stock := s, status := st\<rparr>"
    using stock_assignments_doc [of s d0] status_x by (simp add: x_eq) (simp add: d0_def)
  have marks: "(modified x = {}) = (stock d = s \<and> status d = st)"
    using stock_assignments_modified(2) [of d0 s] status_x
    by (simp add: x_eq) (auto simp: d0_def)
  have "modified x \<subseteq> {P_stock, P_status}"
    using stock_assignments_modified(1) [of d0 s] by (simp add: x_eq) (simp add: d0_def)
  then have no_name: "\<not> isModified x P_name"
    by (auto simp: isModified_def)
  show doc_t: "doc (timestamps_pre_save now x) =
           d\<lparr>stock := s, status := st,
             updatedAt := (if stock d = s \<and> status d = st then updatedAt d else Some now)\<rparr>"
    using timestamps_loaded(1) [OF old, of now] marks by (simp add: doc_x)
  have "\<not> isModified (timestamps_pre_save now x) P_name"
    using timestamps_loaded(2) [OF old, of now] no_name by simp
  then have "pre_save_slug (timestamps_pre_save now x) = timestamps_pre_save now x"
    by (rule pre_save_slug_unmodified)
  moreover have "pre_save_status (timestamps_pre_save now x) = timestamps_pre_save now x"
    by (rule pre_save_status_settled) (simp_all add: doc_t, simp_all add: st_def)
  ultimately show "pre_save_status (pre_save_slug (timestamps_pre_save now x))
      = timestamps_pre_save now x"
    by simp
qed

text \<open>The status the controller stores, whatever the prices are.\<close>

lemma updateStock_status:
  assumes "decors i = Some d" and "decor_valid d"
  shows "map_option status (snd (updateStock now decors i s) i) =
           Some (if s = 0 then OUT_OF_STOCK
                 else if status d = OUT_OF_STOCK then ACTIVE else status d)"
proof -
  define x where
    "x = stock_assignments s \<lparr>doc_id = i, doc = d, modified = {}, isNew = False\<rparr>"
  have "status (doc (decor_pre_save (timestamps_pre_save now x)))
      = status (doc (timestamps_pre_save now x))"
    using stock_save_hooks(1) [of now s i d]
    by (simp add: decor_pre_save_def pre_save_price_status x_def)
  then have "status (doc (decor_pre_save (timestamps_pre_save now x))) =
      (if s = 0 then OUT_OF_STOCK else if status d = OUT_OF_STOCK then ACTIVE else status d)"
    using stock_save_hooks(2) [of now s i d] by (simp add: x_def)
  then show ?thesis
    using updateStock_found [where s = s and decors = decors and i = i and d = d and now = now]
      assms
    by (simp add: Let_def x_def)
qed

text \<open>The answer and the collection for a stored decor that passes the validators and
  whose original price, when present, is above its price.\<close>

lemma updateStock_result:
  assumes "decors i = Some d" and "decor_valid d"
      and "\<forall>op. originalPrice d = Some op \<longrightarrow> price d < op"
  shows "updateStock now decors i s =
     (Response 200
        (Some \<lparr>sb_id = i, sb_stock = s,
               sb_status = (if s = 0 then OUT_OF_STOCK
                            else if status d = OUT_OF_STOCK then ACTIVE else status d)\<rparr>),
      decors(i \<mapsto> d\<lparr>stock := s,
                     status := (if s = 0 then OUT_OF_STOCK
                                else if status d = OUT_OF_STOCK then ACTIVE else status d),
                     updatedAt :=
                       (if stock d = s
                           \<and> status d = (if s = 0 then OUT_OF_STOCK
                                         else if status d = OUT_OF_STOCK then ACTIVE
                                         else status d)
                        then updatedAt d else Some now)\<rparr>))"
proof -
  define x where
    "x = stock_assignments s \<lparr>doc_id = i, doc = d, modified = {}, isNew = False\<rparr>"
  define t where "t = timestamps_pre_save now x"
  have hooks: "pre_save_status (pre_save_slug t) = t"
    using stock_save_hooks(1) [of now s i d] by (simp add: t_def x_def)
  have doc_t: "doc t = d\<lparr>stock := s,
      status := (if s = 0 then OUT_OF_STOCK
                 else if status d = OUT_OF_STOCK then ACTIVE else status d),
      updatedAt :=
        (if stock d = s
            \<and> status d = (if s = 0 then OUT_OF_STOCK
                          else if status d = OUT_OF_STOCK then ACTIVE else status d)
         then updatedAt d else Some now)\<rparr>"
    using stock_save_hooks(2) [of now s i d] by (simp add: t_def x_def)
  have "pre_save_price t = t"
    by (rule pre_save_price_invariant) (use assms(3) in \<open>simp add: doc_t\<close>)
  then have "decor_pre_save t = t"
    using hooks by (simp add: decor_pre_save_def)
  then show ?thesis
    using updateStock_found [where s = s and decors = decors and i = i and d = d and now = now]
      assms(1,2) doc_t
    by (simp add: Let_def x_def [symmetric] t_def [symmetric])
qed

text \<open>
  Claim C10, with the update time. For a stored decor whose original price, when
  present, is strictly greater than its price, for every stock value and every time of
  the request, the stock controller leaves the collection as it was except for the decor
  addressed, of which the stock, the status and the update time are assigned: the stock
  is the one asked for, the status is out of stock at stock 0, active for an
  out-of-stock decor that is restocked and the stored one otherwise, and the update time
  is the time of the request unless stock and status are the stored ones, when nothing
  is written. Name, slug, description, category, price, original price, images, tags,
  materials, featured flag, rating, counters and creation time are those stored before.
  The answer is 200; for a stored decor that fails the validators it is 500, and nothing
  is written.
\<close>

theorem updateStock_frame:
  assumes "decors i = Some d"
      and "\<forall>op. originalPrice d = Some op \<longrightarrow> price d < op"
  shows "(decor_valid d \<longrightarrow>
            updateStock now decors i s =
              (Response 200
                 (Some \<lparr>sb_id = i, sb_stock = s,
                        sb_status = (if s = 0 then OUT_OF_STOCK
                                     else if status d = OUT_OF_STOCK then ACTIVE
                                     else status d)\<rparr>),
               decors(i \<mapsto> d\<lparr>stock := s,
                              status := (if s = 0 then OUT_OF_STOCK
                                         else if status d = OUT_OF_STOCK then ACTIVE
                                         else status d),
                              updatedAt :=
                                (if stock d = s
                                    \<and> status d = (if s = 0 then OUT_OF_STOCK
                                                  else if status d = OUT_OF_STOCK then ACTIVE
                                                  else status d)
                                 then updatedAt d else Some now)\<rparr>)))
       \<and> (\<not> decor_valid d \<longrightarrow> updateStock now decors i s = (Response 500 None, decors))"
  using updateStock_result [where decors = decors and i = i and d = d and now = now and s = s]
    updateStock_invalid [where decors = decors and i = i and d = d and now = now and s = s]
    assms
  by blast

theorem updateStock_frame_witness:
  "updateStock 200 [''d1'' \<mapsto> lamp\<lparr>originalPrice := Some 12\<rparr>] ''d1'' 0 =
     (Response 200 (Some \<lparr>sb_id = ''d1'', sb_stock = 0, sb_status = OUT_OF_STOCK\<rparr>),
      [''d1'' \<mapsto> lamp\<lparr>originalPrice := Some 12\<rparr>]
        (''d1'' \<mapsto> lamp\<lparr>originalPrice := Some 12, stock := 0, status := OUT_OF_STOCK,
                         updatedAt := Some 200\<rparr>))"
proof -
  have "decor_valid (lamp\<lparr>originalPrice := Some 12\<rparr>)"
    by (simp add: decor_valid_def lamp_def)
  moreover have "stock (lamp\<lparr>originalPrice := Some 12\<rparr>) = 5"
    and "price (lamp\<lparr>originalPrice := Some 12\<rparr>) = 10"
    by (simp_all add: lamp_def)
  ultimately show ?thesis
    using updateStock_frame
            [of "[''d1'' \<mapsto> lamp\<lparr>originalPrice := Some 12\<rparr>]" "''d1''"
                "lamp\<lparr>originalPrice := Some 12\<rparr>" 200 0]
    by simp
qed

text \<open>
  Claim C10 as first stated, at the lamp: it was created and last saved at second 100
  and has no original price, so the invariant of the claim holds. A patch to stock 0 at
  second 200 stores the update time 200: a field other than the stock and the status
  is modified.
\<close>

theorem updateStock_sets_updatedAt:
  "originalPrice lamp = None \<and> updatedAt lamp = Some 100
   \<and> map_option updatedAt (snd (updateStock 200 [''d1'' \<mapsto> lamp] ''d1'' 0) ''d1'')
       = Some (Some 200)"
proof -
  have "decor_valid lamp" and "stock lamp = 5" and "originalPrice lamp = None"
    and "updatedAt lamp = Some 100"
    by (simp_all add: decor_valid_def lamp_def)
  then show ?thesis
    using updateStock_result [of "[''d1'' \<mapsto> lamp]" "''d1''" lamp 200 0]
    by simp
qed

text \<open>
  Claim C1 at a discontinued decor. The pre-save hook leaves a discontinued decor
  discontinued (\<open>pre_save_status_discontinued\<close>), but the controller assigns the status
  itself before the save, without the hook's test: a discontinued decor with 5 in stock,
  patched to stock 0, is stored as out of stock.
\<close>

theorem updateStock_discontinued_zero:
  "map_option status
     (snd (updateStock 200 [''d1'' \<mapsto> lamp\<lparr>status := DISCONTINUED\<rparr>] ''d1'' 0) ''d1'')
     = Some OUT_OF_STOCK"
  using updateStock_status
          [of "[''d1'' \<mapsto> lamp\<lparr>status := DISCONTINUED\<rparr>]" "''d1''"
              "lamp\<lparr>status := DISCONTINUED\<rparr>" 200 0]
  by (simp add: decor_valid_def lamp_def)

section \<open>Properties of the token issuer and the refresh endpoint\<close>

lemma ms_7d: "ms ''7d'' = Some 604800000"
  by code_simp

lemma ms_24h: "ms ''24h'' = Some 86400000"
  by code_simp

lemma jwt_sign_7d: "jwt_sign p k ''7d'' now = Some (Jwt p now (now + 604800) k)"
proof -
  have "\<lfloor>rat_of_int now + 604800\<rfloor> = now + 604800"
    by linarith
  then show ?thesis
    by (simp add: jwt_sign_def ms_7d)
qed

lemma load_config_default_expire:
  assumes "env_JWT_EXPIRE e = None \<or> env_JWT_EXPIRE e = Some []"
  shows "JWT_EXPIRE (load_config e) = ''7d''"
  using assms by (auto simp: load_config_def or_else_def)

lemma load_config_secret_nonempty: "JWT_SECRET (load_config e) \<noteq> []"
  by (simp add: load_config_def or_else_def split: option.splits)

lemma generateTokens_default:
  assumes "env_JWT_EXPIRE e = None \<or> env_JWT_EXPIRE e = Some []"
  shows "generateTokens (load_config e) p now =
           Some (Jwt p now (now + 604800) (JWT_SECRET (load_config e)),
                 Jwt p now (now + 604800) (JWT_SECRET (load_config e)))"
  using load_config_default_expire [OF assms] load_config_secret_nonempty [of e]
  by (simp add: generateTokens_def jwt_sign_7d)

text \<open>
  Claim C7 at an environment without \<open>JWT_EXPIRE\<close>. The configuration gives the
  variable the default \<open>"7d"\<close>, so the fallback \<open>"24h"\<close> of the issuer is never
  taken: the access token issued at second 1000 expires 7 days later, not 24 hours later.
\<close>

theorem access_token_default_expiry:
  "map_option (expiry \<circ> fst) (generateTokens (load_config default_env) admin_caller 1000)
     = Some (Some (1000 + 7 * 86400))
   \<and> map_option (expiry \<circ> fst) (generateTokens (load_config default_env) admin_caller 1000)
     \<noteq> Some (Some (1000 + 24 * 3600))"
  using generateTokens_default [of default_env admin_caller 1000]
  by (simp add: default_env_def expiry_def)

lemma refreshToken_without_secret:
  assumes "env_JWT_REFRESH_SECRET e = None"
  shows "refreshToken e users cookie now = (401, None)"
  using assms by (simp add: refreshToken_def jwt_verify_def split: option.splits)

lemma refreshToken_other_secret:
  assumes "env_JWT_REFRESH_SECRET e = Some k" and "k \<noteq> JWT_SECRET (load_config e)"
      and "generateTokens (load_config e) p issued = Some (a, r)"
  shows "refreshToken e users (Some r) now = (401, None)"
proof -
  have "r = Jwt p issued (issued + 604800) (JWT_SECRET (load_config e))"
    using assms(3)
    by (auto simp: generateTokens_def jwt_sign_7d split: if_splits option.splits)
  then show ?thesis
    using assms(1,2) by (simp add: refreshToken_def jwt_verify_def)
qed

lemma refreshToken_same_secret:
  assumes "env_JWT_REFRESH_SECRET e = Some (JWT_SECRET (load_config e))"
      and "generateTokens (load_config e) p issued = Some (a, r)"
      and "now < issued + 604800"
      and "User_findById users (au_id p) = Some u" and "isActive u"
  shows "\<exists>a' r'. refreshToken e users (Some r) now = (200, Some (a', r'))"
proof -
  have r: "r = Jwt p issued (issued + 604800) (JWT_SECRET (load_config e))"
    using assms(2)
    by (auto simp: generateTokens_def jwt_sign_7d split: if_splits option.splits)
  have "JWT_EXPIRE (load_config e) \<noteq> []"
    by (simp add: load_config_def or_else_def split: option.splits)
  moreover have "jwt_sign p (JWT_SECRET (load_config e)) (JWT_EXPIRE (load_config e)) issued \<noteq> None"
    using assms(2) calculation
    by (auto simp: generateTokens_def split: if_splits option.splits)
  then have "ms (JWT_EXPIRE (load_config e)) \<noteq> None"
    by (auto simp: jwt_sign_def split: option.splits)
  ultimately have "generateTokens (load_config e)
      \<lparr>au_id = au_id p, au_email = email u, au_role = role u\<rparr> now \<noteq> None"
    using load_config_secret_nonempty [of e]
    by (auto simp: generateTokens_def jwt_sign_def ms_7d split: option.splits)
  then show ?thesis
    using assms(1,3,4,5) load_config_secret_nonempty [of e]
    by (auto simp: refreshToken_def jwt_verify_def r)
qed

text \<open>
  Claim C3 at an environment that sets \<open>JWT_SECRET\<close> only. The issuer signs the refresh
  token with the secret of the configuration; the refresh endpoint verifies it with the
  variable \<open>JWT_REFRESH_SECRET\<close>, which nothing sets: the token minted for an existing,
  active user is refused with 401 a thousand seconds after it was issued. With the
  variable set to the configured secret the round trip succeeds
  (\<open>refreshToken_same_secret\<close>).
\<close>

theorem refresh_round_trip_fails:
  "generateTokens (load_config default_env)
     \<lparr>au_id = ''u2'', au_email = email staff, au_role = role staff\<rparr> 1000
     = Some (Jwt admin_caller 1000 605800 ''k1'', Jwt admin_caller 1000 605800 ''k1'')
   \<and> User_findById [(''u2'', staff)] ''u2'' = Some staff \<and> isActive staff
   \<and> refreshToken default_env [(''u2'', staff)] (Some (Jwt admin_caller 1000 605800 ''k1'')) 2000
     = (401, None)"
  using generateTokens_default [of default_env admin_caller 1000]
    refreshToken_without_secret [of default_env]
  by (simp add: default_env_def staff_def admin_caller_def load_config_def or_else_def
      User_findById_def)

section \<open>Properties of user management and authentication\<close>

lemma super_admin_controllers:
  assumes "User_findById users i = Some u" and "role u = SUPER_ADMIN"
  shows "deleteUser users i = (403, users)"
    and "deactivateUser users i = (403, users)"
    and "demoteFromAdmin users i = (403, users)"
  using assms by (simp_all add: deleteUser_def deactivateUser_def demoteFromAdmin_def)

lemma super_admin_routes:
  assumes "User_findById users i = Some u" and "role u = SUPER_ADMIN"
  shows "route_deleteUser (Some caller) users i = (403, users)"
    and "route_deactivateUser (Some caller) users i = (403, users)"
    and "route_demoteFromAdmin (Some caller) users i = (403, users)"
  using super_admin_controllers [OF assms]
  by (simp_all add: route_deleteUser_def route_deactivateUser_def route_demoteFromAdmin_def
      gated_def adminOnly_def superAdminOnly_def authorize_def)

text \<open>
  Claim C4 at the update route. The delete, deactivate and demote controllers refuse a
  super-admin with 403 and leave the collection as it is (\<open>super_admin_routes\<close>); the
  update controller has no such test: an administrator's update with role \<open>user\<close> and
  \<open>isActive\<close> false is answered 200 and the super-admin is stored demoted and
  deactivated.
\<close>

theorem updateUser_demotes_super_admin:
  "User_findById [(''u1'', root_user)] ''u1'' = Some root_user
   \<and> role root_user = SUPER_ADMIN \<and> isActive root_user
   \<and> route_updateUser (Some admin_caller) [(''u1'', root_user)] ''u1''
       \<lparr>b_firstName = None, b_lastName = None, b_role = Some USER, b_isActive = Some False\<rparr>
     = (200, [(''u1'', root_user\<lparr>role := USER, isActive := False\<rparr>)])"
  by (simp add: route_updateUser_def gated_def adminOnly_def authorize_def admin_caller_def
      update_body_valid_def name_valid_def updateUser_def User_findById_def User_save_def
      root_user_def)

text \<open>
  Claim C9. A request whose token verifies but whose user is absent or deactivated is
  answered 401 by the authentication middleware, which does not call the next handler;
  a login with the correct password of a deactivated account is answered 403.
\<close>

theorem authenticate_401_login_403:
  "(extract_token req = Some token \<and> verifyToken cfg token now = Some decoded
      \<and> (case User_findById users (au_id decoded) of None \<Rightarrow> True | Some u \<Rightarrow> \<not> isActive u)
      \<longrightarrow> authenticate cfg users req now = Respond 401)
   \<and> (User_findOne_email users e = Some (i, v) \<and> \<not> isActive v
      \<and> bcrypt_compare pw (password v)
      \<longrightarrow> login cfg users e pw now = ((403, None), users))"
  by (auto simp: authenticate_def login_def split: option.splits)

theorem authenticate_401_login_403_witness:
  "authenticate \<lparr>JWT_SECRET = ''k1'', JWT_EXPIRE = ''7d''\<rparr> [(''u2'', leaver)]
     \<lparr>authorization = Some (Bearer (Some (Jwt admin_caller 1000 605800 ''k1''))),
      cookie_token = None\<rparr> 2000 = Respond 401
   \<and> login \<lparr>JWT_SECRET = ''k1'', JWT_EXPIRE = ''7d''\<rparr> [(''u2'', leaver)]
       ''staff@craftopia.com'' ''Secret1'' 2000 = ((403, None), [(''u2'', leaver)])"
  using authenticate_401_login_403
     [of "\<lparr>authorization = Some (Bearer (Some (Jwt admin_caller 1000 605800 ''k1''))),
           cookie_token = None\<rparr>"
         "Jwt admin_caller 1000 605800 ''k1''"
         "\<lparr>JWT_SECRET = ''k1'', JWT_EXPIRE = ''7d''\<rparr>" 2000 admin_caller
         "[(''u2'', leaver)]" "''staff@craftopia.com''" "''u2''" leaver "''Secret1''"]
  by (simp add: extract_token_def verifyToken_def jwt_verify_def User_findById_def
      User_findOne_email_def leaver_def staff_def admin_caller_def bcrypt_compare_def)

section \<open>Properties of the slug\<close>

lemma hyphen_is_sep: "is_sep hyphen"
  by (simp add: is_sep_def)

lemma replace_runs_word:
  assumes "\<forall>c\<in>set w. \<not> is_sep c"
  shows "replace_runs (w @ r) = w @ replace_runs r"
  using assms by (induction w) simp_all

lemma join_hyphen_Cons:
  "join_hyphen (w # ws) = (if ws = [] then w else w @ hyphen # join_hyphen ws)"
  by (cases ws) simp_all

lemma lead_Nil: "xs = [] \<or> \<not> is_sep (hd xs) \<Longrightarrow> lead xs = []"
  by (cases xs) (simp_all add: lead_def)

lemma lead_hyphen: "xs \<noteq> [] \<Longrightarrow> is_sep (hd xs) \<Longrightarrow> lead xs = [hyphen]"
  by (cases xs) (simp_all add: lead_def)

lemma lead_dropWhile_sep: "lead (dropWhile is_sep cs) = []"
  using hd_dropWhile [of is_sep cs] by (intro lead_Nil) blast

lemma lead_dropWhile_word:
  assumes "dropWhile (\<lambda>x. \<not> is_sep x) cs \<noteq> []"
  shows "lead (dropWhile (\<lambda>x. \<not> is_sep x) cs) = [hyphen]"
  using assms hd_dropWhile [of "\<lambda>x. \<not> is_sep x" cs] by (intro lead_hyphen) blast+

text \<open>After the replacement of the runs, the string is the joined words, with one
  hyphen in front if it started with a separator, and hyphens only behind.\<close>

lemma replace_runs_shape:
  "\<exists>T. replace_runs xs = lead xs @ join_hyphen (slug_words xs) @ T \<and> (\<forall>c\<in>set T. c = hyphen)"
proof (induction xs rule: slug_words.induct)
  case 1
  show ?case by (simp add: lead_def)
next
  case (2 c cs)
  show ?case
  proof (cases "is_sep c")
    case True
    then obtain T where
      "replace_runs (dropWhile is_sep cs) = join_hyphen (slug_words (dropWhile is_sep cs)) @ T"
      "\<forall>c\<in>set T. c = hyphen"
      using 2(1) by (auto simp: lead_dropWhile_sep)
    with True show ?thesis by (simp add: lead_def)
  next
    case False
    define w where "w = c # takeWhile (\<lambda>x. \<not> is_sep x) cs"
    define r where "r = dropWhile (\<lambda>x. \<not> is_sep x) cs"
    have split: "c # cs = w @ r"
      by (simp add: w_def r_def)
    have w: "\<forall>x\<in>set w. \<not> is_sep x"
      using False by (auto simp: w_def dest: set_takeWhileD)
    have runs: "replace_runs (c # cs) = w @ replace_runs r"
      unfolding split using w by (rule replace_runs_word)
    have words: "slug_words (c # cs) = w # slug_words r"
      using False by (simp add: w_def r_def)
    obtain T where T: "replace_runs r = lead r @ join_hyphen (slug_words r) @ T"
      "\<forall>c\<in>set T. c = hyphen"
      using 2(2) [OF False] by (auto simp: r_def)
    show ?thesis
    proof (cases "r = []")
      case True
      with runs words False show ?thesis by (simp add: lead_def)
    next
      case nonempty: False
      then have "lead r = [hyphen]"
        unfolding r_def by (rule lead_dropWhile_word)
      with T(1) have r: "replace_runs r = hyphen # join_hyphen (slug_words r) @ T"
        by simp
      show ?thesis
      proof (cases "slug_words r = []")
        case True
        with runs words r T(2) False show ?thesis
          by (simp add: lead_def)
      next
        case False
        with runs words r T(2) \<open>\<not> is_sep c\<close> show ?thesis
          by (simp add: lead_def join_hyphen_Cons)
      qed
    qed
  qed
qed

lemma set_dropWhile_Cons: "set (dropWhile P cs) \<subseteq> set (c # cs)"
  by (auto dest: set_dropWhileD)

lemma set_takeWhile_word:
  "x \<in> set (takeWhile (\<lambda>x. \<not> is_sep x) cs) \<Longrightarrow> x \<in> set cs \<and> \<not> is_sep x"
  by (drule set_takeWhileD) simp

text \<open>A word is not empty, and its characters are characters of the string that are no
  separators.\<close>

lemma slug_words_chars:
  assumes "w \<in> set (slug_words xs)"
  shows "w \<noteq> [] \<and> (\<forall>c\<in>set w. c \<in> set xs \<and> \<not> is_sep c)"
  using assms
proof (induction xs rule: slug_words.induct)
  case 1
  then show ?case by simp
next
  case (2 c cs)
  show ?case
  proof (cases "is_sep c")
    case True
    with 2(3) have "w \<in> set (slug_words (dropWhile is_sep cs))"
      by simp
    then have "w \<noteq> [] \<and> (\<forall>x\<in>set w. x \<in> set (dropWhile is_sep cs) \<and> \<not> is_sep x)"
      by (rule 2(1) [OF True])
    then show ?thesis
      using set_dropWhile_Cons [of is_sep cs c] by blast
  next
    case False
    with 2(3) have "w = c # takeWhile (\<lambda>x. \<not> is_sep x) cs
        \<or> w \<in> set (slug_words (dropWhile (\<lambda>x. \<not> is_sep x) cs))"
      by simp
    then show ?thesis
    proof
      assume w: "w = c # takeWhile (\<lambda>x. \<not> is_sep x) cs"
      have "x \<in> set (c # cs) \<and> \<not> is_sep x" if "x \<in> set w" for x
      proof (cases "x = c")
        case True
        with False show ?thesis by simp
      next
        case False
        with that w have "x \<in> set (takeWhile (\<lambda>x. \<not> is_sep x) cs)"
          by simp
        then show ?thesis
          by (auto dest: set_takeWhile_word)
      qed
      with w show ?thesis by blast
    next
      assume "w \<in> set (slug_words (dropWhile (\<lambda>x. \<not> is_sep x) cs))"
      then have "w \<noteq> [] \<and>
          (\<forall>x\<in>set w. x \<in> set (dropWhile (\<lambda>x. \<not> is_sep x) cs) \<and> \<not> is_sep x)"
        by (rule 2(2) [OF False])
      then show ?thesis
        using set_dropWhile_Cons [of "\<lambda>x. \<not> is_sep x" cs c] by blast
    qed
  qed
qed

lemma join_hyphen_ends:
  assumes "ws \<noteq> []" and "\<forall>w\<in>set ws. w \<noteq> [] \<and> hyphen \<notin> set w"
  shows "join_hyphen ws \<noteq> [] \<and> hd (join_hyphen ws) \<noteq> hyphen \<and> last (join_hyphen ws) \<noteq> hyphen"
  using assms
proof (induction ws rule: join_hyphen.induct)
  case 1
  then show ?case by simp
next
  case (2 w)
  then have "w \<noteq> []" and "hyphen \<notin> set w"
    by simp_all
  then have "hd w \<in> set w" and "last w \<in> set w"
    by simp_all
  with \<open>w \<noteq> []\<close> \<open>hyphen \<notin> set w\<close> show ?case
    by (metis join_hyphen.simps(2))
next
  case (3 w v ws)
  then have "join_hyphen (v # ws) \<noteq> []" and "last (join_hyphen (v # ws)) \<noteq> hyphen"
    by simp_all
  moreover have "w \<noteq> []" and "hyphen \<notin> set w"
    using 3(3) by simp_all
  moreover from this have "hd w \<noteq> hyphen"
    by (metis hd_in_set)
  ultimately show ?case by simp
qed

lemma set_join_hyphen: "set (join_hyphen ws) \<subseteq> insert hyphen (\<Union>w\<in>set ws. set w)"
  by (induction ws rule: join_hyphen.induct) auto

lemma strip_hyphens_framed:
  assumes "\<forall>c\<in>set L. c = hyphen" and "\<forall>c\<in>set T. c = hyphen"
      and "J = [] \<or> (hd J \<noteq> hyphen \<and> last J \<noteq> hyphen)"
  shows "strip_hyphens (L @ J @ T) = J"
proof (cases "J = []")
  case True
  have "\<forall>c\<in>set (L @ T). c = hyphen"
    using assms(1,2) by auto
  then have none: "dropWhile (\<lambda>c. c = hyphen) (L @ T) = []"
    by (simp only: dropWhile_eq_Nil_conv)
  have "strip_hyphens (L @ T) = []"
    unfolding strip_hyphens_def none by simp
  with True show ?thesis by simp
next
  case False
  then obtain a as where J: "J = a # as" by (cases J) auto
  with assms(3) have "a \<noteq> hyphen" by simp
  have "dropWhile (\<lambda>c. c = hyphen) (L @ J @ T) = dropWhile (\<lambda>c. c = hyphen) (J @ T)"
    by (rule dropWhile_append2) (use assms(1) in simp)
  with \<open>a \<noteq> hyphen\<close> have front: "dropWhile (\<lambda>c. c = hyphen) (L @ J @ T) = J @ T"
    by (simp add: J)
  have "last J \<noteq> hyphen"
    using assms(3) False by simp
  then have "hd (rev J) \<noteq> hyphen"
    using False by (simp add: hd_rev)
  then have rear: "dropWhile (\<lambda>c. c = hyphen) (rev J) = rev J"
    using False by (cases "rev J") simp_all
  have "dropWhile (\<lambda>c. c = hyphen) (rev T @ rev J) = dropWhile (\<lambda>c. c = hyphen) (rev J)"
    by (rule dropWhile_append2) (use assms(2) in simp)
  with rear have "dropWhile (\<lambda>c. c = hyphen) (rev (J @ T)) = rev J"
    by simp
  with front show ?thesis by (simp add: strip_hyphens_def)
qed

lemma slug_words_ends:
  "join_hyphen (slug_words xs) = []
   \<or> (hd (join_hyphen (slug_words xs)) \<noteq> hyphen \<and> last (join_hyphen (slug_words xs)) \<noteq> hyphen)"
proof (cases "slug_words xs = []")
  case True
  then show ?thesis by simp
next
  case False
  moreover have "\<forall>w\<in>set (slug_words xs). w \<noteq> [] \<and> hyphen \<notin> set w"
    using slug_words_chars hyphen_is_sep by blast
  ultimately show ?thesis
    using join_hyphen_ends by blast
qed

lemma strip_replace_runs: "strip_hyphens (replace_runs xs) = join_hyphen (slug_words xs)"
proof -
  obtain T where "replace_runs xs = lead xs @ join_hyphen (slug_words xs) @ T"
    and "\<forall>c\<in>set T. c = hyphen"
    using replace_runs_shape by blast
  moreover have "\<forall>c\<in>set (lead xs). c = hyphen"
    by (cases xs) (simp_all add: lead_def)
  ultimately show ?thesis
    using strip_hyphens_framed [OF _ _ slug_words_ends] by simp
qed

lemma generateSlug_words:
  "generateSlug text = join_hyphen (slug_words (remove_special (trim (toLowerCase text))))"
  by (simp add: generateSlug_def strip_replace_runs)

lemma toLowerCase_char_not_upper: "\<not> is_upper (toLowerCase_char c)"
  by (auto simp: toLowerCase_char_def is_upper_def is_latin1_upper_def)

lemma set_trim: "set (trim xs) \<subseteq> set xs"
  by (auto simp: trim_def dest!: set_dropWhileD)

lemma generateSlug_chars:
  assumes "ch \<in> set (generateSlug text)"
  shows "is_lower ch \<or> is_digit ch \<or> ch = hyphen"
proof (cases "ch = hyphen")
  case True
  then show ?thesis by simp
next
  case False
  define xs where "xs = remove_special (trim (toLowerCase text))"
  have "ch \<in> set (join_hyphen (slug_words xs))"
    using assms by (simp add: generateSlug_words xs_def)
  with False obtain w where "w \<in> set (slug_words xs)" and "ch \<in> set w"
    using set_join_hyphen [of "slug_words xs"] by auto
  then have "ch \<in> set xs" and "\<not> is_sep ch"
    using slug_words_chars by blast+
  then have "is_kept ch" and "ch \<in> set (toLowerCase text)"
    using set_trim by (auto simp: xs_def remove_special_def)
  then have "\<not> is_upper ch"
    by (auto simp: toLowerCase_def toLowerCase_char_not_upper)
  with \<open>is_kept ch\<close> \<open>\<not> is_sep ch\<close> show ?thesis
    by (auto simp: is_kept_def is_sep_def is_word_def)
qed

lemma slug_example: "generateSlug ''Wall Art & Decor'' = ''wall-art-decor''"
  by code_simp

lemma set_slug_slug: "slug (doc (set_slug v d)) = v"
  by (simp add: set_slug_def)

lemma pre_save_status_slug: "slug (doc (pre_save_status d)) = slug (doc d)"
  by (simp add: pre_save_status_def set_status_def)

lemma pre_save_price_slug: "slug (doc (pre_save_price d)) = slug (doc d)"
  by (simp add: pre_save_price_def clear_originalPrice_def)

lemma decor_pre_save_slug:
  assumes "isModified d P_name"
  shows "slug (doc (decor_pre_save d)) = generateSlug (name (doc d))"
  using assms
  by (simp add: decor_pre_save_def pre_save_price_slug pre_save_status_slug pre_save_slug_def
      set_slug_slug)

lemma generateSlug_ends:
  assumes "generateSlug text \<noteq> []"
  shows "hd (generateSlug text) \<noteq> hyphen \<and> last (generateSlug text) \<noteq> hyphen"
  using assms slug_words_ends [of "remove_special (trim (toLowerCase text))"]
  by (simp add: generateSlug_words)

text \<open>
  Claim C8. When the name of a decor or of a category has been assigned, the pre-save
  hook stores \<open>generateSlug\<close> of the name as the slug. For every name, the slug holds
  only lower-case letters, digits and hyphens, neither starts nor ends with a hyphen,
  and is the words of the lower-cased, trimmed name without its special characters,
  joined by single hyphens: each maximal run of white space, underscores and hyphens
  between two words has become one hyphen.
\<close>

theorem slug_derivation:
  "(isModified d P_name \<longrightarrow> slug (doc (decor_pre_save d)) = generateSlug (name (doc d)))
   \<and> (name_modified c \<longrightarrow>
        c_slug (cdoc (category_pre_save c)) = generateSlug (c_name (cdoc c)))
   \<and> (\<forall>ch\<in>set (generateSlug text). is_lower ch \<or> is_digit ch \<or> ch = hyphen)
   \<and> (generateSlug text \<noteq> [] \<longrightarrow>
        hd (generateSlug text) \<noteq> hyphen \<and> last (generateSlug text) \<noteq> hyphen)
   \<and> generateSlug text = join_hyphen (slug_words (remove_special (trim (toLowerCase text))))"
proof -
  have "name_modified c \<longrightarrow>
      c_slug (cdoc (category_pre_save c)) = generateSlug (c_name (cdoc c))"
    by (simp add: category_pre_save_def)
  then show ?thesis
    using decor_pre_save_slug generateSlug_chars generateSlug_ends generateSlug_words
    by blast
qed

theorem slug_derivation_witness:
  "isModified wall_art P_name \<and> slug (doc (decor_pre_save wall_art)) = ''wall-art-decor''
   \<and> name_modified wall_art_category
   \<and> c_slug (cdoc (category_pre_save wall_art_category)) = ''wall-art-decor''
   \<and> generateSlug ''Wall Art & Decor'' = ''wall-art-decor''
   \<and> list_all (\<lambda>ch. is_lower ch \<or> is_digit ch \<or> ch = hyphen) ''wall-art-decor''
   \<and> hd ''wall-art-decor'' \<noteq> hyphen \<and> last ''wall-art-decor'' \<noteq> hyphen"
proof -
  note all = slug_derivation [of wall_art wall_art_category "''Wall Art & Decor''"]
  have d: "isModified wall_art P_name" "name (doc wall_art) = ''Wall Art & Decor''"
    by (simp_all add: wall_art_def isModified_def)
  have c: "name_modified wall_art_category"
    "c_name (cdoc wall_art_category) = ''Wall Art & Decor''"
    by (simp_all add: wall_art_category_def)
  have "slug (doc (decor_pre_save wall_art)) = generateSlug (name (doc wall_art))"
    using all d(1) by blast
  moreover have "c_slug (cdoc (category_pre_save wall_art_category))
      = generateSlug (c_name (cdoc wall_art_category))"
    using all c(1) by blast
  moreover have "\<forall>ch\<in>set (generateSlug ''Wall Art & Decor'').
      is_lower ch \<or> is_digit ch \<or> ch = hyphen"
    using all by blast
  moreover have "generateSlug ''Wall Art & Decor'' \<noteq> []"
    by (simp add: slug_example)
  then have "hd (generateSlug ''Wall Art & Decor'') \<noteq> hyphen
      \<and> last (generateSlug ''Wall Art & Decor'') \<noteq> hyphen"
    using all by blast
  ultimately show ?thesis
    using d c by (simp add: slug_example list_all_iff)
qed

section \<open>Properties of the decor count\<close>

lemma deleteDecor_categories: "db_categories (snd (deleteDecor s i)) = db_categories s"
  by (simp add: deleteDecor_def Decor_findByIdAndDelete_def split: option.splits)

lemma post_deleteOne_decrements:
  assumes "cats (category (doc d)) = Some c"
  shows "decor_post Document_deleteOne d cats (category (doc d))
           = Some (c\<lparr>decorCount := decorCount c - 1\<rparr>)"
  using assms by (simp add: Category_inc_decorCount_def)

lemma post_save_increments:
  assumes "cats (category (doc d)) = Some c" and "isModified d P_category \<or> isNew d"
  shows "decor_post Document_save d cats (category (doc d))
           = Some (c\<lparr>decorCount := decorCount c + 1\<rparr>)"
  using assms by (auto simp: Category_inc_decorCount_def)

text \<open>
  Claim C2 at a delete. The schema registers its decrementing hook for \<open>deleteOne\<close>
  called on a document (\<open>post_deleteOne_decrements\<close>); the controller deletes with
  \<open>findByIdAndDelete\<close>, a query for which no hook is registered: the decor is removed,
  the answer is 200, and the count of its category is still 1.
\<close>

theorem deleteDecor_keeps_count:
  "db_decors shop ''d1'' = Some lamp \<and> category lamp = ''c1''
   \<and> map_option decorCount (db_categories shop ''c1'') = Some 1
   \<and> fst (deleteDecor shop ''d1'') = 200
   \<and> db_decors (snd (deleteDecor shop ''d1'')) ''d1'' = None
   \<and> map_option decorCount (db_categories (snd (deleteDecor shop ''d1'')) ''c1'') = Some 1"
  by (simp add: deleteDecor_categories)
    (simp add: shop_def lamp_def lighting_def deleteDecor_def Decor_findById_def
      Decor_findByIdAndDelete_def)

section \<open>Properties of pagination\<close>

lemma Math_ceil_div_eq: "Math_ceil_div n limit = - ((- n) div limit)"
  by (simp add: Math_ceil_div_def ceiling_divide_eq_div)

lemma getPagination_bounds:
  "1 \<le> pg_page (getPagination page limit n)
   \<and> 1 \<le> pg_limit (getPagination page limit n)
   \<and> pg_limit (getPagination page limit n) \<le> 100
   \<and> 0 \<le> pg_skip (getPagination page limit n)"
  by (simp add: getPagination_def Let_def)

text \<open>
  Claim C5. For an endpoint whose default limit lies between 1 and its maximum, every
  list request that is answered with a page has a current page of at least 1 (1 when no
  page is asked for) and a limit of at most the endpoint's maximum (the default when no
  limit is asked for); the page holds the items from \<open>(page - 1) * limit\<close> on, and
  reports the total count, \<open>ceil(total / limit)\<close> pages, and the flags
  \<open>page < pages\<close> and \<open>page > 1\<close>.
\<close>

theorem list_endpoint_pagination:
  assumes "1 \<le> ep_default ep" and "ep_default ep \<le> ep_max ep"
      and "list_endpoint ep q coll = Inr r"
  shows "1 \<le> currentPage r \<and> (q_page q = None \<longrightarrow> currentPage r = 1)
       \<and> 1 \<le> used_limit r \<and> used_limit r \<le> ep_max ep
       \<and> (q_limit q = None \<longrightarrow> used_limit r = ep_default ep)
       \<and> items r = take (nat (used_limit r)) (drop (nat ((currentPage r - 1) * used_limit r)) coll)
       \<and> totalCount r = int (length coll)
       \<and> totalPages r = \<lceil>rat_of_int (totalCount r) / rat_of_int (used_limit r)\<rceil>
       \<and> hasNextPage r = (currentPage r < totalPages r)
       \<and> hasPrevPage r = (1 < currentPage r)"
proof -
  define page where "page = parseInt_or (q_page q) 1"
  define limit where "limit = parseInt_or (q_limit q) (ep_default ep)"
  have valid: "validateQuery ep q"
    using assms(3) by (simp add: list_endpoint_def split: if_splits)
  have page: "1 \<le> page" "q_page q = None \<longrightarrow> page = 1"
    using valid by (auto simp: page_def parseInt_or_def validateQuery_def split: option.splits)
  have limit: "1 \<le> limit" "limit \<le> ep_max ep" "q_limit q = None \<longrightarrow> limit = ep_default ep"
    using valid assms(1,2)
    by (auto simp: limit_def parseInt_or_def validateQuery_def split: option.splits)
  have skip: "0 \<le> (page - 1) * limit"
    using page(1) limit(1) by simp
  have "list_controller (ep_default ep) q coll = Some r"
    using assms(3) by (simp add: list_endpoint_def split: if_splits option.splits)
  then have r: "r = \<lparr>used_skip = (page - 1) * limit, used_limit = limit,
                     items = take (nat limit) (drop (nat ((page - 1) * limit)) coll),
                     currentPage = page, totalPages = Math_ceil_div (int (length coll)) limit,
                     totalCount = int (length coll),
                     hasNextPage = (page < Math_ceil_div (int (length coll)) limit),
                     hasPrevPage = (page > 1)\<rparr>"
    using skip limit(1)
    by (auto simp: list_controller_def Let_def find_page_def page_def [symmetric]
        limit_def [symmetric] split: if_splits)
  show ?thesis
    using page limit by (simp add: r Math_ceil_div_def)
qed

theorem list_endpoint_pagination_witness:
  "list_endpoint users_endpoint \<lparr>q_page = Some 2, q_limit = Some 10\<rparr> [1 ..< 26 :: nat] = Inr
     \<lparr>used_skip = 10, used_limit = 10, items = [11 ..< 21], currentPage = 2,
      totalPages = 3, totalCount = 25, hasNextPage = True, hasPrevPage = True\<rparr>
   \<and> (1::int) \<le> 10 \<and> (10::int) \<le> 100"
proof -
  have run: "list_endpoint users_endpoint \<lparr>q_page = Some 2, q_limit = Some 10\<rparr> [1 ..< 26 :: nat]
      = Inr \<lparr>used_skip = 10, used_limit = 10, items = [11 ..< 21], currentPage = 2,
             totalPages = 3, totalCount = 25, hasNextPage = True, hasPrevPage = True\<rparr>"
    by (simp add: list_endpoint_def validateQuery_def users_endpoint_def list_controller_def
        parseInt_or_def find_page_def Math_ceil_div_eq Let_def)
  show ?thesis
    using list_endpoint_pagination [of users_endpoint _ _ _, OF _ _ run] run
    by (simp add: users_endpoint_def)
qed

end
